theory Spec2Isabelle
  imports
    Complex_Main
    "HOL-Library.Multiset"
    "HOL-Library.Char_ord"
    "HOL-Library.List_Lexorder"
    "HOL-Library.Product_Lexorder"
begin

section \<open>Sales dashboard: loader, transaction view and query catalogue of app.py\<close>

text \<open>
  The program is one Python script, \<^verbatim>\<open>app.py\<close>, written against pandas. Its engine is
  \<^item> \<^verbatim>\<open>load_data\<close> (lines 21-61): reads two gzip CSV partitions, concatenates them and
    normalises the columns;
  \<^item> \<^verbatim>\<open>transactions_base\<close> (lines 78-82): one row per (date, store_nbr);
  \<^item> the grouped and ranked tables of the four tabs (lines 116-348).

  The pandas calls are embedded by what pandas documents for them; each definition names
  the call it stands for. Finite floating point numbers are idealised as \<^typ>\<open>real\<close>
  (rounding is not modelled); the loader's cells also hold the two infinities.
\<close>

subsection \<open>Tables as pandas holds them\<close>

text \<open>
  A cell of a DataFrame: a null (\<^verbatim>\<open>NaN\<close>, \<^verbatim>\<open>NaT\<close>), a finite float, an infinite float
  (\<open>Infty True\<close> is \<^verbatim>\<open>inf\<close>, \<open>Infty False\<close> is \<^verbatim>\<open>-inf\<close>; neither is a null), a 64-bit
  integer, a text or a parsed date. \<^verbatim>\<open>read_csv\<close> yields nulls, floats and texts; the integers
  and the dates come from the loader's conversions. A frame has its column names in order and its rows; a row gives
  the cell under each column name, and only the names in \<open>columns\<close> are columns.
\<close>

record timestamp =
  ts_year :: int
  ts_month :: int
  ts_day :: int

datatype cell = NaN | Num real | Infty bool | Int64 int | Str string | Ts timestamp

text \<open>What a text parses to as a number: a finite float or an infinity.\<close>

datatype number = Finite real | Infinite bool

record frame =
  columns :: "string list"
  rows :: "(string \<Rightarrow> cell) list"

datatype error = FileError string | KeyError string | ValueError string

definition and_then :: "error + 'a \<Rightarrow> ('a \<Rightarrow> error + 'b) \<Rightarrow> error + 'b" where
  "and_then m f = (case m of Inl e \<Rightarrow> Inl e | Inr x \<Rightarrow> f x)"

text \<open>
  What the script takes from pandas and the properties leave open is a parameter: the parser
  of \<^verbatim>\<open>to_datetime\<close>, the parser of \<^verbatim>\<open>to_numeric\<close> (for both, \<open>None\<close> is a value that
  does not parse) and the ISO week of a day.
\<close>

record pandas =
  parse_datetime :: "cell \<Rightarrow> timestamp option"
  parse_number :: "cell \<Rightarrow> number option"
  isocalendar_week :: "timestamp \<Rightarrow> int"

text \<open>
  The files: what \<^verbatim>\<open>read_csv(p, compression="gzip")\<close> reads at a path, \<open>None\<close> for a
  file that is missing or cannot be read, where \<^verbatim>\<open>read_csv\<close> raises.
\<close>

type_synonym files = "string \<Rightarrow> frame option"

definition read_csv :: "files \<Rightarrow> string \<Rightarrow> error + frame" where
  "read_csv fs p = (case fs p of None \<Rightarrow> Inl (FileError p) | Some d \<Rightarrow> Inr d)"

text \<open>
  \<^verbatim>\<open>pd.concat(dfs, ignore_index=True)\<close>: the columns are the union of the frames' columns,
  in order of first appearance; the rows follow each other in the order of the frames;
  a row has a null under every column its own frame does not have.
\<close>

fun union_columns :: "string list \<Rightarrow> frame list \<Rightarrow> string list" where
  "union_columns acc [] = acc"
| "union_columns acc (d # ds) =
     union_columns (acc @ filter (\<lambda>c. c \<notin> set acc) (columns d)) ds"

definition reindex_rows :: "frame \<Rightarrow> (string \<Rightarrow> cell) list" where
  "reindex_rows d = map (\<lambda>r c. if c \<in> set (columns d) then r c else NaN) (rows d)"

definition concat_frames :: "frame list \<Rightarrow> frame" where
  "concat_frames dfs =
     \<lparr>columns = union_columns [] dfs, rows = concat (map reindex_rows dfs)\<rparr>"

definition drop_column :: "string \<Rightarrow> frame \<Rightarrow> frame" where
  "drop_column c df =
     \<lparr>columns = filter (\<lambda>c'. c' \<noteq> c) (columns df), rows = map (\<lambda>r. r(c := NaN)) (rows df)\<rparr>"

text \<open>\<^verbatim>\<open>df[c] = ...\<close> with a value per row: replaces the column, or appends a new one.\<close>

definition set_column :: "string \<Rightarrow> ((string \<Rightarrow> cell) \<Rightarrow> cell) \<Rightarrow> frame \<Rightarrow> frame" where
  "set_column c f df =
     \<lparr>columns = (if c \<in> set (columns df) then columns df else columns df @ [c]),
      rows = map (\<lambda>r. r(c := f r)) (rows df)\<rparr>"

text \<open>\<^verbatim>\<open>df[c]\<close> on the right-hand side raises \<^verbatim>\<open>KeyError\<close> when \<open>c\<close> is no column.\<close>

definition require_column :: "string \<Rightarrow> frame \<Rightarrow> error + frame" where
  "require_column c df = (if c \<in> set (columns df) then Inr df else Inl (KeyError c))"

text \<open>\<^verbatim>\<open>df[c]\<close>, the cells of a column, and \<^verbatim>\<open>df[c].isna().any()\<close>.\<close>

definition column :: "string \<Rightarrow> frame \<Rightarrow> cell list" where
  "column c df = map (\<lambda>r. r c) (rows df)"

definition isna_any :: "string \<Rightarrow> frame \<Rightarrow> bool" where
  "isna_any c df = (\<exists>x\<in>set (column c df). x = NaN)"

subsection \<open>The conversions of \<^verbatim>\<open>load_data\<close>\<close>

text \<open>
  \<^verbatim>\<open>pd.to_datetime(..., errors="coerce")\<close>: a null stays null, a parsed date stays, and a
  value that does not parse becomes \<^verbatim>\<open>NaT\<close>.
\<close>

definition to_datetime :: "pandas \<Rightarrow> cell \<Rightarrow> cell" where
  "to_datetime pd c =
     (case c of
        NaN \<Rightarrow> NaN
      | Ts t \<Rightarrow> Ts t
      | _ \<Rightarrow> (case parse_datetime pd c of None \<Rightarrow> NaN | Some t \<Rightarrow> Ts t))"

text \<open>
  \<^verbatim>\<open>pd.to_numeric(..., errors="coerce")\<close>: numbers stay, a null stays null, and a value
  that does not parse becomes \<^verbatim>\<open>NaN\<close>.
\<close>

definition cell_of_number :: "number \<Rightarrow> cell" where
  "cell_of_number n = (case n of Finite x \<Rightarrow> Num x | Infinite s \<Rightarrow> Infty s)"

definition to_numeric :: "pandas \<Rightarrow> cell \<Rightarrow> cell" where
  "to_numeric pd c =
     (case c of
        NaN \<Rightarrow> NaN
      | Num x \<Rightarrow> Num x
      | Infty s \<Rightarrow> Infty s
      | Int64 i \<Rightarrow> Num (real_of_int i)
      | _ \<Rightarrow> (case parse_number pd c of None \<Rightarrow> NaN | Some n \<Rightarrow> cell_of_number n))"

definition fillna :: "cell \<Rightarrow> cell \<Rightarrow> cell" where
  "fillna v c = (if c = NaN then v else c)"

text \<open>
  \<^verbatim>\<open>astype("int64")\<close> of a float column: pandas first raises \<^verbatim>\<open>IntCastingNaNError\<close>, a
  \<^verbatim>\<open>ValueError\<close>, when a value of the column is not finite (the check is in
  \<open>convert_onpromotion\<close>, on the whole column); then NumPy casts each value, which cuts
  the fraction off, towards zero, and gives the smallest 64-bit integer for a value out of
  range, as the cast does on x86-64.
\<close>

definition trunc_real :: "real \<Rightarrow> int" where
  "trunc_real x = (if 0 \<le> x then \<lfloor>x\<rfloor> else \<lceil>x\<rceil>)"

definition int64_of_real :: "real \<Rightarrow> int" where
  "int64_of_real x =
     (if - (2 ^ 63) \<le> trunc_real x \<and> trunc_real x < 2 ^ 63 then trunc_real x else - (2 ^ 63))"

definition astype_int64 :: "cell \<Rightarrow> cell" where
  "astype_int64 c = (case c of Num x \<Rightarrow> Int64 (int64_of_real x) | _ \<Rightarrow> c)"

definition is_infinite :: "cell \<Rightarrow> bool" where
  "is_infinite c = (case c of Infty s \<Rightarrow> True | _ \<Rightarrow> False)"

text \<open>\<^verbatim>\<open>.dt.year\<close>, \<^verbatim>\<open>.dt.month\<close>: the field of a date, null for \<^verbatim>\<open>NaT\<close>.\<close>

definition dt_year :: "cell \<Rightarrow> cell" where
  "dt_year c = (case c of Ts t \<Rightarrow> Int64 (ts_year t) | _ \<Rightarrow> NaN)"

definition dt_month :: "cell \<Rightarrow> cell" where
  "dt_month c = (case c of Ts t \<Rightarrow> Int64 (ts_month t) | _ \<Rightarrow> NaN)"

text \<open>
  \<^verbatim>\<open>.dt.isocalendar().week\<close> is a nullable integer column, \<^verbatim>\<open><NA>\<close> for \<^verbatim>\<open>NaT\<close>.
\<close>

definition dt_isocalendar_week :: "pandas \<Rightarrow> cell \<Rightarrow> cell" where
  "dt_isocalendar_week pd c = (case c of Ts t \<Rightarrow> Int64 (isocalendar_week pd t) | _ \<Rightarrow> NaN)"

subsection \<open>\<^verbatim>\<open>load_data\<close> (lines 21-61)\<close>

definition paths :: "string list" where
  "paths = [''data/parte_1.csv.gz'', ''data/parte_2.csv.gz'']"

text \<open>Lines 26-29: the loop over the paths; the first file that fails ends the load.\<close>

fun read_all :: "files \<Rightarrow> string list \<Rightarrow> error + frame list" where
  "read_all fs [] = Inr []"
| "read_all fs (p # ps) =
     and_then (read_csv fs p) (\<lambda>d. and_then (read_all fs ps) (\<lambda>ds. Inr (d # ds)))"

text \<open>Lines 34-35.\<close>

definition drop_unnamed :: "frame \<Rightarrow> frame" where
  "drop_unnamed df =
     (if ''Unnamed: 0'' \<in> set (columns df) then drop_column ''Unnamed: 0'' df else df)"

text \<open>Line 37.\<close>

definition convert_date :: "pandas \<Rightarrow> frame \<Rightarrow> error + frame" where
  "convert_date pd df =
     and_then (require_column ''date'' df)
       (\<lambda>df. Inr (set_column ''date'' (\<lambda>r. to_datetime pd (r ''date'')) df))"

text \<open>
  Lines 40-46: \<^verbatim>\<open>astype("category")\<close> changes how a column is stored and none of its
  values.
\<close>

definition cat_cols :: "string list" where
  "cat_cols =
     [''family'', ''holiday_type'', ''locale'', ''locale_name'', ''description'',
      ''transferred'', ''city'', ''state'', ''store_type'', ''day_of_week'']"

definition astype_category :: "cell \<Rightarrow> cell" where
  "astype_category c = c"

definition convert_categories :: "frame \<Rightarrow> frame" where
  "convert_categories df =
     fold (\<lambda>c d. if c \<in> set (columns d) then set_column c (\<lambda>r. astype_category (r c)) d else d)
       cat_cols df"

text \<open>Lines 49-51.\<close>

definition convert_sales :: "pandas \<Rightarrow> frame \<Rightarrow> error + frame" where
  "convert_sales pd df =
     and_then (require_column ''sales'' df)
       (\<lambda>df. Inr (set_column ''sales'' (\<lambda>r. fillna (Num 0) (to_numeric pd (r ''sales''))) df))"

definition convert_onpromotion :: "pandas \<Rightarrow> frame \<Rightarrow> error + frame" where
  "convert_onpromotion pd df =
     and_then (require_column ''onpromotion'' df)
       (\<lambda>df. if \<exists>x\<in>set (column ''onpromotion'' df). is_infinite (fillna (Num 0) (to_numeric pd x))
            then Inl (ValueError ''Cannot convert non-finite values (NA or inf) to integer'')
            else Inr (set_column ''onpromotion''
                   (\<lambda>r. astype_int64 (fillna (Num 0) (to_numeric pd (r ''onpromotion'')))) df))"

definition convert_transactions :: "pandas \<Rightarrow> frame \<Rightarrow> error + frame" where
  "convert_transactions pd df =
     and_then (require_column ''transactions'' df)
       (\<lambda>df. Inr (set_column ''transactions'' (\<lambda>r. to_numeric pd (r ''transactions'')) df))"

text \<open>
  Lines 54-59. A column is computed again, whole, when it is missing or has a null.
  For the week, \<^verbatim>\<open>.astype("int64")\<close> of the nullable integer column raises \<^verbatim>\<open>ValueError\<close>
  when one of its values is \<^verbatim>\<open><NA>\<close>, that is when a date is \<^verbatim>\<open>NaT\<close>.
\<close>

definition needs_backfill :: "string \<Rightarrow> frame \<Rightarrow> bool" where
  "needs_backfill c df = (c \<notin> set (columns df) \<or> isna_any c df)"

definition backfill_year :: "frame \<Rightarrow> frame" where
  "backfill_year df =
     (if needs_backfill ''year'' df then set_column ''year'' (\<lambda>r. dt_year (r ''date'')) df
      else df)"

definition backfill_month :: "frame \<Rightarrow> frame" where
  "backfill_month df =
     (if needs_backfill ''month'' df then set_column ''month'' (\<lambda>r. dt_month (r ''date'')) df
      else df)"

definition backfill_week :: "pandas \<Rightarrow> frame \<Rightarrow> error + frame" where
  "backfill_week pd df =
     (if needs_backfill ''week'' df then
        (if isna_any ''date'' df then Inl (ValueError ''cannot convert NA to integer'')
         else Inr (set_column ''week'' (\<lambda>r. dt_isocalendar_week pd (r ''date'')) df))
      else Inr df)"

text \<open>Lines 31-61, from the concatenation on.\<close>

definition normalise :: "pandas \<Rightarrow> frame list \<Rightarrow> error + frame" where
  "normalise pd dfs =
     and_then (convert_date pd (drop_unnamed (concat_frames dfs))) (\<lambda>df.
     and_then (convert_sales pd (convert_categories df)) (\<lambda>df.
     and_then (convert_onpromotion pd df) (\<lambda>df.
     and_then (convert_transactions pd df) (\<lambda>df.
     backfill_week pd (backfill_month (backfill_year df))))))"

definition load_data :: "pandas \<Rightarrow> files \<Rightarrow> error + frame" where
  "load_data pd fs = and_then (read_all fs paths) (normalise pd)"

subsection \<open>Rows of the canonical dataset\<close>

text \<open>
  A parsed \<^verbatim>\<open>date\<close> is a calendar day; \<^verbatim>\<open>NaT\<close>, \<^verbatim>\<open>NaN\<close> and a missing category are
  \<open>None\<close>. The record holds the columns the queries read; the other columns of the
  files ride along in the record's extension.
\<close>

record sales_row =
  date :: "timestamp option"
  store_nbr :: int
  family :: "string option"
  sales :: real
  onpromotion :: int
  transactions :: "real option"
  holiday_type :: "string option"
  state :: "string option"
  day_of_week :: "string option"
  year :: "int option"
  month :: "int option"
  week :: "int option"
  dcoilwtico :: "real option"

subsection \<open>The transaction view (lines 78-82)\<close>

text \<open>
  \<^verbatim>\<open>cols = ["date", "store_nbr", "state", "transactions", "year"]\<close>;
  \<^verbatim>\<open>df_[cols]\<close> keeps these five columns of every row.
\<close>

record tx_row =
  b_date :: "timestamp option"
  b_store_nbr :: int
  b_state :: "string option"
  b_transactions :: "real option"
  b_year :: "int option"

definition select_cols :: "'a sales_row_scheme \<Rightarrow> tx_row" where
  "select_cols r =
     \<lparr>b_date = date r, b_store_nbr = store_nbr r, b_state = state r,
      b_transactions = transactions r, b_year = year r\<rparr>"

text \<open>
  \<^verbatim>\<open>DataFrame.drop_duplicates(subset=...)\<close> with the default \<^verbatim>\<open>keep="first"\<close>: rows are
  visited in order and a row is kept when the values of its subset columns have not been
  seen on an earlier row. Nulls compare equal to each other here, as \<open>None = None\<close>.
\<close>

fun drop_duplicates_seen :: "('a \<Rightarrow> 'k) \<Rightarrow> 'k list \<Rightarrow> 'a list \<Rightarrow> 'a list" where
  "drop_duplicates_seen cols seen [] = []"
| "drop_duplicates_seen cols seen (x # xs) =
     (if cols x \<in> set seen then drop_duplicates_seen cols seen xs
      else x # drop_duplicates_seen cols (cols x # seen) xs)"

definition drop_duplicates :: "('a \<Rightarrow> 'k) \<Rightarrow> 'a list \<Rightarrow> 'a list" where
  "drop_duplicates cols xs = drop_duplicates_seen cols [] xs"

definition date_store :: "'a sales_row_scheme \<Rightarrow> timestamp option \<times> int" where
  "date_store r = (date r, store_nbr r)"

definition base_date_store :: "tx_row \<Rightarrow> timestamp option \<times> int" where
  "base_date_store t = (b_date t, b_store_nbr t)"

definition transactions_base :: "'a sales_row_scheme list \<Rightarrow> tx_row list" where
  "transactions_base df = drop_duplicates base_date_store (map select_cols df)"

subsection \<open>Grouping, aggregating and sorting as pandas does\<close>

text \<open>
  \<^verbatim>\<open>df.groupby(key)\<close> with its defaults \<^verbatim>\<open>sort=True\<close> and \<^verbatim>\<open>dropna=True\<close>: rows whose
  key is null belong to no group, and the groups come in ascending order of the key,
  whatever the order of the rows. With \<^verbatim>\<open>observed=True\<close> a categorical key gives the
  categories that occur, in category order, which \<^verbatim>\<open>astype("category")\<close> makes the sorted
  order of the values. Strings are ordered as Python orders them, character by character.
\<close>

definition group_keys :: "('a \<Rightarrow> 'k::linorder option) \<Rightarrow> 'a list \<Rightarrow> 'k list" where
  "group_keys key df = sort (remdups (List.map_filter key df))"

definition get_group :: "('a \<Rightarrow> 'k option) \<Rightarrow> 'k \<Rightarrow> 'a list \<Rightarrow> 'a list" where
  "get_group key k df = filter (\<lambda>r. key r = Some k) df"

definition groupby_agg ::
  "('a \<Rightarrow> 'k::linorder option) \<Rightarrow> ('a list \<Rightarrow> 'v) \<Rightarrow> 'a list \<Rightarrow> ('k \<times> 'v) list" where
  "groupby_agg key agg df = map (\<lambda>k. (k, agg (get_group key k df))) (group_keys key df)"

text \<open>\<^verbatim>\<open>.sum()\<close> and \<^verbatim>\<open>.mean()\<close> of a column without nulls, over the rows of one group.\<close>

definition col_sum :: "('a \<Rightarrow> real) \<Rightarrow> 'a list \<Rightarrow> real" where
  "col_sum col g = sum_list (map col g)"

definition col_mean :: "('a \<Rightarrow> real) \<Rightarrow> 'a list \<Rightarrow> real" where
  "col_mean col g = sum_list (map col g) / real (length g)"

text \<open>
  \<^verbatim>\<open>.mean()\<close> of a nullable column skips the nulls (\<^verbatim>\<open>skipna=True\<close>);
  \<^verbatim>\<open>.sum(min_count=1)\<close> skips them too and is null when fewer than one value is left.
\<close>

definition mean_skipna :: "('a \<Rightarrow> real option) \<Rightarrow> 'a list \<Rightarrow> real" where
  "mean_skipna col g =
     (let present = List.map_filter col g in sum_list present / real (length present))"

definition sum_min_count :: "nat \<Rightarrow> ('a \<Rightarrow> real option) \<Rightarrow> 'a list \<Rightarrow> real option" where
  "sum_min_count n col g =
     (let present = List.map_filter col g
      in if length present < n then None else Some (sum_list present))"

text \<open>
  \<^verbatim>\<open>sort_values\<close> on one column sorts with NumPy's \<^verbatim>\<open>kind="quicksort"\<close>, the default,
  which is not stable: rows with equal values come out in an order that the script does
  not fix. The sorting routine is therefore a parameter of every table that is sorted by
  its values; \<open>sorts\<close> says all that is known of it, that it returns the rows it was
  given, in ascending order of the column.
\<close>

type_synonym ('a, 'v) sorter = "('a \<Rightarrow> 'v) \<Rightarrow> 'a list \<Rightarrow> 'a list"

definition sorts :: "('a, 'v::linorder) sorter \<Rightarrow> bool" where
  "sorts quicksort \<longleftrightarrow>
     (\<forall>col t. mset (quicksort col t) = mset t \<and> sorted (map col (quicksort col t)))"

text \<open>
  \<^verbatim>\<open>sort_values(ascending=False)\<close>: pandas reverses the values, sorts them ascending and
  reverses the result. \<^verbatim>\<open>head(n)\<close> is \<^const>\<open>take\<close>.
\<close>

definition sort_values_desc :: "('a, 'v::linorder) sorter \<Rightarrow> ('a \<Rightarrow> 'v) \<Rightarrow> 'a list \<Rightarrow> 'a list" where
  "sort_values_desc quicksort col t = rev (quicksort col (rev t))"

text \<open>
  \<^verbatim>\<open>reset_index().sort_values(key)\<close> on a grouped table sorts ascending by the group key.
  The keys of a grouped table are distinct, so every sorting routine gives the same rows
  in the same order (\<open>sorts_distinct_keys\<close> below), here written with the library's sort.
\<close>

definition sort_values_asc :: "('a \<Rightarrow> 'v::linorder) \<Rightarrow> 'a list \<Rightarrow> 'a list" where
  "sort_values_asc col t = sort_key col t"

text \<open>
  A sort that is stable and descending: rows with equal values keep their order. It is
  what \<^verbatim>\<open>sort_values\<close> on several columns does for a descending column (there pandas
  sorts with \<^verbatim>\<open>np.lexsort\<close>, which is stable), and what the specification asks of a
  ranking.
\<close>

definition stable_sort_desc :: "('a \<Rightarrow> 'v::linorder) \<Rightarrow> 'a list \<Rightarrow> 'a list" where
  "stable_sort_desc col t = rev (sort_key col (rev t))"

subsection \<open>Tab 1: global view (lines 116-187)\<close>

definition top_products ::
  "(string \<times> real, real) sorter \<Rightarrow> 'a sales_row_scheme list \<Rightarrow> (string \<times> real) list" where
  "top_products quicksort df =
     take 10 (sort_values_desc quicksort snd (groupby_agg family (col_sum sales) df))"

definition sales_by_store ::
  "(int \<times> real, real) sorter \<Rightarrow> 'a sales_row_scheme list \<Rightarrow> (int \<times> real) list" where
  "sales_by_store quicksort df =
     take 30 (sort_values_desc quicksort snd
       (groupby_agg (\<lambda>r. Some (store_nbr r)) (col_sum sales) df))"

definition promo_df :: "'a sales_row_scheme list \<Rightarrow> 'a sales_row_scheme list" where
  "promo_df df = filter (\<lambda>r. onpromotion r > 0) df"

definition promo_sales_by_store ::
  "(int \<times> real, real) sorter \<Rightarrow> 'a sales_row_scheme list \<Rightarrow> (int \<times> real) list" where
  "promo_sales_by_store quicksort df =
     take 10 (sort_values_desc quicksort snd
       (groupby_agg (\<lambda>r. Some (store_nbr r)) (col_sum sales) (promo_df df)))"

definition dow_avg ::
  "(string \<times> real, real) sorter \<Rightarrow> 'a sales_row_scheme list \<Rightarrow> (string \<times> real) list" where
  "dow_avg quicksort df =
     sort_values_desc quicksort snd (groupby_agg day_of_week (col_mean sales) df)"

definition week_avg :: "'a sales_row_scheme list \<Rightarrow> (int \<times> real) list" where
  "week_avg df = sort_values_asc fst (groupby_agg week (col_mean sales) df)"

definition month_avg :: "'a sales_row_scheme list \<Rightarrow> (int \<times> real) list" where
  "month_avg df = sort_values_asc fst (groupby_agg month (col_mean sales) df)"

subsection \<open>Tab 2: one store (lines 204-238)\<close>

definition df_store :: "'a sales_row_scheme list \<Rightarrow> int \<Rightarrow> 'a sales_row_scheme list" where
  "df_store df store_selected = filter (\<lambda>r. store_nbr r = store_selected) df"

definition sales_by_year :: "'a sales_row_scheme list \<Rightarrow> int \<Rightarrow> (int \<times> real) list" where
  "sales_by_year df store_selected =
     sort_values_asc fst (groupby_agg year (col_sum sales) (df_store df store_selected))"

definition top_store_products ::
  "(string \<times> real, real) sorter \<Rightarrow> 'a sales_row_scheme list \<Rightarrow> int \<Rightarrow> (string \<times> real) list" where
  "top_store_products quicksort df store_selected =
     take 10 (sort_values_desc quicksort snd
       (groupby_agg family (col_sum sales) (df_store df store_selected)))"

subsection \<open>Tab 3: one state (lines 255-288)\<close>

text \<open>\<^verbatim>\<open>df["state"] == state_selected\<close> is false on a null state.\<close>

definition df_state :: "'a sales_row_scheme list \<Rightarrow> string \<Rightarrow> 'a sales_row_scheme list" where
  "df_state df state_selected = filter (\<lambda>r. state r = Some state_selected) df"

definition tx_state :: "tx_row list \<Rightarrow> string \<Rightarrow> tx_row list" where
  "tx_state tx_base state_selected = filter (\<lambda>t. b_state t = Some state_selected) tx_base"

definition tx_year :: "tx_row list \<Rightarrow> string \<Rightarrow> (int \<times> real option) list" where
  "tx_year tx_base state_selected =
     sort_values_asc fst
       (groupby_agg b_year (sum_min_count 1 b_transactions) (tx_state tx_base state_selected))"

definition sales_store_rank ::
  "(int \<times> real, real) sorter \<Rightarrow> 'a sales_row_scheme list \<Rightarrow> string \<Rightarrow> (int \<times> real) list" where
  "sales_store_rank quicksort df state_selected =
     take 10 (sort_values_desc quicksort snd
       (groupby_agg (\<lambda>r. Some (store_nbr r)) (col_sum sales) (df_state df state_selected)))"

text \<open>
  \<^verbatim>\<open>top_product_per_store\<close>: the sums per (store_nbr, family), as rows
  (store_nbr, family, sales); sorted by store_nbr ascending, then sales descending (a
  stable sort on the two columns, written as the two stable sorts it amounts to);
  \<^verbatim>\<open>groupby("store_nbr").head(1)\<close> keeps the first row of each store, in row order;
  then the leaders are sorted by sales, descending, on that one column, and cut to 15.
\<close>

definition store_family :: "'a sales_row_scheme \<Rightarrow> (int \<times> string) option" where
  "store_family r = map_option (Pair (store_nbr r)) (family r)"

definition top_product_per_store ::
  "(int \<times> string \<times> real, real) sorter \<Rightarrow> 'a sales_row_scheme list \<Rightarrow> string
     \<Rightarrow> (int \<times> string \<times> real) list" where
  "top_product_per_store quicksort df state_selected =
     (let t = map (\<lambda>((s, f), v). (s, f, v))
                (groupby_agg store_family (col_sum sales) (df_state df state_selected));
          t = sort_values_asc fst (stable_sort_desc (\<lambda>(s, f, v). v) t);
          t = drop_duplicates fst t
      in take 15 (sort_values_desc quicksort (\<lambda>(s, f, v). v) t))"

subsection \<open>Tab 4: insights (lines 322-348)\<close>

text \<open>The labels are \<^verbatim>\<open>"Con promocion"\<close> and \<^verbatim>\<open>"Sin promocion"\<close>, with o acute (code point 243).\<close>

definition promo_flag :: "'a sales_row_scheme \<Rightarrow> string" where
  "promo_flag r =
     (if onpromotion r > 0 then ''Con promoci'' @ [char_of (243::nat)] @ ''n''
      else ''Sin promoci'' @ [char_of (243::nat)] @ ''n'')"

definition promo_compare :: "'a sales_row_scheme list \<Rightarrow> (string \<times> real) list" where
  "promo_compare df = groupby_agg (\<lambda>r. Some (promo_flag r)) (col_mean sales) df"

definition holiday_avg ::
  "(string \<times> real, real) sorter \<Rightarrow> 'a sales_row_scheme list \<Rightarrow> (string \<times> real) list" where
  "holiday_avg quicksort df =
     sort_values_desc quicksort snd (groupby_agg holiday_type (col_mean sales) df)"

definition oil_ok :: "'a sales_row_scheme list \<Rightarrow> 'a sales_row_scheme list" where
  "oil_ok df = filter (\<lambda>r. dcoilwtico r \<noteq> None) df"

definition year_month_key :: "'a sales_row_scheme \<Rightarrow> (int \<times> int) option" where
  "year_month_key r =
     (case year r of None \<Rightarrow> None
      | Some y \<Rightarrow> (case month r of None \<Rightarrow> None | Some m \<Rightarrow> Some (y, m)))"

text \<open>
  \<^verbatim>\<open>str.zfill(width)\<close> pads with zeros on the left, after a leading sign.
  \<^verbatim>\<open>astype(str)\<close> writes a number as Python's \<^verbatim>\<open>str\<close> does, which depends on the dtype of
  the column (\<^verbatim>\<open>2017\<close> for an integer column, \<^verbatim>\<open>2017.0\<close> for a float one), so it is a
  parameter of \<open>oil_month\<close>; \<open>str_int\<close> is the one of an integer column.
\<close>

definition zfill :: "nat \<Rightarrow> string \<Rightarrow> string" where
  "zfill width s =
     (case s of
        c # cs \<Rightarrow>
          (if c = CHR ''+'' \<or> c = CHR ''-'' then c # replicate (width - length s) CHR ''0'' @ cs
           else replicate (width - length s) CHR ''0'' @ s)
      | [] \<Rightarrow> replicate width CHR ''0'')"

definition digit_char :: "nat \<Rightarrow> char" where
  "digit_char d = ''0123456789'' ! d"

function str_nat :: "nat \<Rightarrow> string" where
  "str_nat n = (if n < 10 then [digit_char n] else str_nat (n div 10) @ [digit_char (n mod 10)])"
  by pat_completeness auto
termination
  by (relation "measure id") auto

definition str_int :: "int \<Rightarrow> string" where
  "str_int i = (if i < 0 then CHR ''-'' # str_nat (nat (- i)) else str_nat (nat i))"

record oil_row =
  o_year :: int
  o_month :: int
  avg_oil :: real
  total_sales :: real
  year_month :: string

definition oil_month :: "(int \<Rightarrow> string) \<Rightarrow> 'a sales_row_scheme list \<Rightarrow> oil_row list" where
  "oil_month astype_str df =
     map (\<lambda>((y, m), (a, t)).
            \<lparr>o_year = y, o_month = m, avg_oil = a, total_sales = t,
             year_month = astype_str y @ ''-'' @ zfill 2 (astype_str m)\<rparr>)
       (groupby_agg year_month_key (\<lambda>g. (mean_skipna dcoilwtico g, col_sum sales g)) (oil_ok df))"

subsection \<open>The ranking as the specification words it\<close>

text \<open>
  Sum-by-category ranking as the specification describes it: the groups in the order in
  which their keys first appear, summed, sorted by the sum, descending and stable, and cut
  to \<open>n\<close>.
\<close>

definition first_appearance_ranking ::
  "('a \<Rightarrow> 'k option) \<Rightarrow> ('a \<Rightarrow> real) \<Rightarrow> nat \<Rightarrow> 'a list \<Rightarrow> ('k \<times> real) list" where
  "first_appearance_ranking key col n df =
     take n (stable_sort_desc snd
       (map (\<lambda>k. (k, col_sum col (get_group key k df)))
          (drop_duplicates (\<lambda>k. k) (List.map_filter key df))))"

subsection \<open>Example data\<close>

definition day1 :: timestamp where
  "day1 = \<lparr>ts_year = 2017, ts_month = 1, ts_day = 2\<rparr>"

definition day2 :: timestamp where
  "day2 = \<lparr>ts_year = 2017, ts_month = 1, ts_day = 3\<rparr>"

definition mk_row ::
  "timestamp option \<Rightarrow> int \<Rightarrow> string \<Rightarrow> real \<Rightarrow> real option \<Rightarrow> string \<Rightarrow> sales_row" where
  "mk_row d s f v t st =
     \<lparr>date = d, store_nbr = s, family = Some f, sales = v, onpromotion = 0,
      transactions = t, holiday_type = None, state = Some st, day_of_week = None,
      year = map_option ts_year d, month = map_option ts_month d, week = None,
      dcoilwtico = None\<rparr>"

definition family_rows :: "sales_row list" where
  "family_rows =
     [mk_row (Some day1) 1 ''A'' 10 (Some 770) ''Pichincha'',
      mk_row (Some day1) 1 ''B'' 30 (Some 770) ''Pichincha'',
      mk_row (Some day2) 1 ''A'' 5 (Some 640) ''Pichincha'']"

text \<open>Two families with the same total, the later one in key order first.\<close>

definition tied_rows :: "sales_row list" where
  "tied_rows =
     [mk_row (Some day1) 1 ''B'' 10 (Some 770) ''Pichincha'',
      mk_row (Some day1) 1 ''A'' 10 (Some 770) ''Pichincha'']"

lemmas eval_defs = sort_values_desc_def sort_values_asc_def stable_sort_desc_def groupby_agg_def
  group_keys_def
  get_group_def col_sum_def col_mean_def mk_row_def List.map_filter_def drop_duplicates_def

text \<open>Three rows on two weekdays and in two weeks.\<close>

definition weekday_rows :: "sales_row list" where
  "weekday_rows =
     [(mk_row (Some day1) 1 ''A'' 1 (Some 770) ''Pichincha'')
        \<lparr>day_of_week := Some ''Monday'', week := Some 2\<rparr>,
      (mk_row (Some day2) 1 ''A'' 5 (Some 640) ''Pichincha'')
        \<lparr>day_of_week := Some ''Tuesday'', week := Some 1\<rparr>,
      (mk_row (Some day1) 2 ''A'' 2 (Some 770) ''Pichincha'')
        \<lparr>day_of_week := Some ''Monday'', week := Some 2\<rparr>]"

text \<open>
  Rows of two states: store 1 of Pichincha has a count on one day and none on the other,
  store 2 of Guayas has no count at all, and one row of store 3 has no date.
\<close>

definition state_rows :: "sales_row list" where
  "state_rows =
     [mk_row (Some day1) 1 ''A'' 10 (Some 770) ''Pichincha'',
      mk_row (Some day1) 1 ''B'' 30 (Some 770) ''Pichincha'',
      mk_row (Some day2) 1 ''A'' 5 None ''Pichincha'',
      mk_row (Some day1) 2 ''A'' 7 None ''Guayas'',
      mk_row (Some day1) 3 ''A'' 7 (Some 100) ''Pichincha'',
      mk_row None 3 ''A'' 7 (Some 50) ''Pichincha'']"

text \<open>Rows of one month, one of them without an oil price.\<close>

definition oil_rows :: "sales_row list" where
  "oil_rows =
     [(mk_row (Some day1) 1 ''A'' 10 (Some 770) ''Pichincha'') \<lparr>dcoilwtico := Some 50\<rparr>,
      (mk_row (Some day1) 1 ''B'' 30 (Some 770) ''Pichincha'') \<lparr>dcoilwtico := None\<rparr>,
      (mk_row (Some day2) 1 ''A'' 5 (Some 640) ''Pichincha'') \<lparr>dcoilwtico := Some 53\<rparr>]"

text \<open>
  Files for the loader. A frame is written as a CSV is: a header and lines of cells.
  The example parsers know two dates, both in ISO week 1 of 2017, and two numbers.
\<close>

definition cells :: "(string \<times> cell) list \<Rightarrow> string \<Rightarrow> cell" where
  "cells kvs c = (case map_of kvs c of None \<Rightarrow> NaN | Some v \<Rightarrow> v)"

definition csv :: "string list \<Rightarrow> cell list list \<Rightarrow> frame" where
  "csv header lines = \<lparr>columns = header, rows = map (\<lambda>vs. cells (zip header vs)) lines\<rparr>"

definition example_pandas :: pandas where
  "example_pandas =
     \<lparr>parse_datetime =
        (\<lambda>c. if c = Str ''2017-01-02'' then Some day1
              else if c = Str ''2017-01-03'' then Some day2 else None),
      parse_number =
        (\<lambda>c. if c = Str ''12.5'' then Some (Finite (25 / 2))
              else if c = Str ''3'' then Some (Finite 3) else None),
      isocalendar_week = (\<lambda>t. 1)\<rparr>"

text \<open>
  Two partitions of different schemas: only the first has \<^verbatim>\<open>city\<close>. Neither has
  \<^verbatim>\<open>year\<close> or \<^verbatim>\<open>week\<close>, and \<^verbatim>\<open>month\<close> is stale in the first and null in the second.
\<close>

definition example_part_1 :: frame where
  "example_part_1 =
     csv [''Unnamed: 0'', ''date'', ''store_nbr'', ''family'', ''sales'', ''onpromotion'',
          ''transactions'', ''city'', ''month'']
       [[Num 0, Str ''2017-01-02'', Num 1, Str ''A'', Str ''12.5'', Str ''abc'', NaN,
         Str ''Quito'', Num 7],
        [Num 1, Str ''2017-01-03'', Num 1, Str ''B'', Str ''n/a'', Str ''3'', Num 640,
         Str ''Quito'', Num 7]]"

definition example_part_2 :: frame where
  "example_part_2 =
     csv [''Unnamed: 0'', ''date'', ''store_nbr'', ''family'', ''sales'', ''onpromotion'',
          ''transactions'', ''month'']
       [[Num 0, Str ''2017-01-03'', Num 2, Str ''A'', NaN, Num (27 / 10), Num 100, NaN]]"

definition example_files :: files where
  "example_files =
     (\<lambda>p. None)(''data/parte_1.csv.gz'' \<mapsto> example_part_1,
                 ''data/parte_2.csv.gz'' \<mapsto> example_part_2)"

text \<open>Negative sales and a negative promotion count.\<close>

definition negative_part_1 :: frame where
  "negative_part_1 =
     csv [''date'', ''sales'', ''onpromotion'', ''transactions'']
       [[Str ''2017-01-02'', Num (- 5), Num (- 3), Num 10]]"

definition negative_part_2 :: frame where
  "negative_part_2 =
     csv [''date'', ''sales'', ''onpromotion'', ''transactions'']
       [[Str ''2017-01-03'', Num 4, Num 1, Num 10]]"

definition negative_files :: files where
  "negative_files =
     (\<lambda>p. None)(''data/parte_1.csv.gz'' \<mapsto> negative_part_1,
                 ''data/parte_2.csv.gz'' \<mapsto> negative_part_2)"

text \<open>
  Calendar columns without nulls that disagree with the date, and one date that does
  not parse.
\<close>

definition stale_part_1 :: frame where
  "stale_part_1 =
     csv [''date'', ''sales'', ''onpromotion'', ''transactions'', ''year'', ''month'', ''week'']
       [[Str ''2017-01-02'', Num 1, Num 0, Num 10, Num 1999, Num 7, Num 30]]"

definition stale_part_2 :: frame where
  "stale_part_2 =
     csv [''date'', ''sales'', ''onpromotion'', ''transactions'', ''year'', ''month'', ''week'']
       [[Str ''no date'', Num 4, Num 1, Num 10, Num 1999, Num 7, Num 30]]"

definition stale_files :: files where
  "stale_files =
     (\<lambda>p. None)(''data/parte_1.csv.gz'' \<mapsto> stale_part_1,
                 ''data/parte_2.csv.gz'' \<mapsto> stale_part_2)"

text \<open>The second partition is missing.\<close>

definition one_file :: files where
  "one_file = (\<lambda>p. None)(''data/parte_1.csv.gz'' \<mapsto> example_part_1)"

lemmas raw_defs = concat_frames_def reindex_rows_def drop_unnamed_def drop_column_def
  needs_backfill_def isna_any_def column_def cells_def csv_def

lemmas cell_defs = to_datetime_def to_numeric_def cell_of_number_def fillna_def astype_int64_def
  int64_of_real_def trunc_real_def is_infinite_def
  dt_year_def dt_month_def dt_isocalendar_week_def example_pandas_def

section \<open>Properties\<close>

subsection \<open>The transaction view\<close>

lemma find_map_comp: "find P (map f xs) = map_option f (find (P \<circ> f) xs)"
  by (induction xs) simp_all

lemma drop_duplicates_seen_filter:
  "filter (\<lambda>t. cols t = k) (drop_duplicates_seen cols seen xs) =
     (if k \<in> set seen then []
      else (case find (\<lambda>t. cols t = k) xs of None \<Rightarrow> [] | Some t \<Rightarrow> [t]))"
proof (induction xs arbitrary: seen)
  case Nil
  show ?case by simp
next
  case (Cons x xs)
  show ?case
  proof (cases "cols x \<in> set seen")
    case True
    then show ?thesis using Cons.IH [of seen] by auto
  next
    case False
    then show ?thesis using Cons.IH [of "cols x # seen"] by auto
  qed
qed

lemma drop_duplicates_filter:
  "filter (\<lambda>t. cols t = k) (drop_duplicates cols xs) =
     (case find (\<lambda>t. cols t = k) xs of None \<Rightarrow> [] | Some t \<Rightarrow> [t])"
  by (simp add: drop_duplicates_def drop_duplicates_seen_filter)

lemma base_date_store_select_cols: "base_date_store (select_cols r) = date_store r"
  by (simp add: base_date_store_def select_cols_def date_store_def)

lemma find_in_set_Some: "x \<in> set xs \<Longrightarrow> P x \<Longrightarrow> \<exists>y. find P xs = Some y \<and> P y \<and> y \<in> set xs"
  by (induction xs) auto

text \<open>
  C1. For every row \<open>r\<close> of the dataset, the transaction view holds exactly one row with
  the pair (date, store_nbr) of \<open>r\<close>; it has the five columns of \<^typ>\<open>tx_row\<close> and is
  the projection of the first row of the dataset with that pair; and when transactions
  is the same on all rows of the pair, it is the value on \<open>r\<close>.
\<close>

theorem transactions_base_one_row_per_pair:
  assumes "r \<in> set df"
  shows "\<exists>r0. find (\<lambda>r'. date_store r' = date_store r) df = Some r0
           \<and> filter (\<lambda>t. base_date_store t = date_store r) (transactions_base df) = [select_cols r0]
           \<and> ((\<forall>r' \<in> set df. date_store r' = date_store r \<longrightarrow> transactions r' = transactions r)
                \<longrightarrow> b_transactions (select_cols r0) = transactions r)"
proof -
  from assms obtain r0 where r0: "find (\<lambda>r'. date_store r' = date_store r) df = Some r0"
    and k: "date_store r0 = date_store r" and m: "r0 \<in> set df"
    using find_in_set_Some [of r df "\<lambda>r'. date_store r' = date_store r"] by auto
  have c: "(\<lambda>t. base_date_store t = date_store r) \<circ> select_cols = (\<lambda>r'. date_store r' = date_store r)"
    by (simp add: fun_eq_iff base_date_store_select_cols)
  have "filter (\<lambda>t. base_date_store t = date_store r) (transactions_base df) = [select_cols r0]"
    by (simp add: transactions_base_def drop_duplicates_filter find_map_comp c r0)
  moreover have "(\<forall>r' \<in> set df. date_store r' = date_store r \<longrightarrow> transactions r' = transactions r)
      \<longrightarrow> b_transactions (select_cols r0) = transactions r"
    using k m by (auto simp: select_cols_def)
  ultimately show ?thesis using r0 by blast
qed

theorem transactions_base_one_row_per_pair_witness:
  "family_rows ! 1 \<in> set family_rows
   \<and> list_all (\<lambda>r'. date_store r' = date_store (family_rows ! 1)
                 \<longrightarrow> transactions r' = transactions (family_rows ! 1)) family_rows
   \<and> find (\<lambda>r'. date_store r' = date_store (family_rows ! 1)) family_rows = Some (family_rows ! 0)
   \<and> filter (\<lambda>t. base_date_store t = (Some day1, 1)) (transactions_base family_rows) =
       [\<lparr>b_date = Some day1, b_store_nbr = 1, b_state = Some ''Pichincha'',
         b_transactions = Some 770, b_year = Some 2017\<rparr>]
   \<and> length (transactions_base family_rows) = 2"
  using transactions_base_one_row_per_pair [of "family_rows ! 1" family_rows]
  by (simp add: family_rows_def mk_row_def date_store_def base_date_store_def select_cols_def
      transactions_base_def drop_duplicates_def day1_def day2_def)

subsection \<open>Groups and their order\<close>

lemma set_map_filter: "set (List.map_filter f xs) = {y. \<exists>x\<in>set xs. f x = Some y}"
  by (induction xs) (auto simp: List.map_filter_def)

lemma set_group_keys: "set (group_keys key df) = {k. \<exists>r\<in>set df. key r = Some k}"
  by (simp add: group_keys_def set_map_filter)

lemma strict_group_keys: "sorted_wrt (<) (group_keys key df)"
  by (simp add: group_keys_def strict_sorted_iff)

lemma keys_groupby_agg: "map fst (groupby_agg key agg df) = group_keys key df"
  by (simp add: groupby_agg_def comp_def)

lemma in_groupby_agg:
  "(k, v) \<in> set (groupby_agg key agg df) \<longleftrightarrow>
     (\<exists>r\<in>set df. key r = Some k) \<and> v = agg (get_group key k df)"
  by (auto simp: groupby_agg_def set_group_keys)

lemma strict_groupby_agg: "sorted_wrt (\<lambda>a b. fst a < fst b) (groupby_agg key agg df)"
  using strict_group_keys [of key df]
  by (simp add: groupby_agg_def sorted_wrt_map)

lemma groupby_agg_Nil: "groupby_agg key agg [] = []"
  by (simp add: groupby_agg_def group_keys_def List.map_filter_def)

text \<open>What every sorting routine does: same rows, values in order.\<close>

lemma sorts_mset: "sorts quicksort \<Longrightarrow> mset (quicksort col t) = mset t"
  by (simp add: sorts_def)

lemma sorts_sorted: "sorts quicksort \<Longrightarrow> sorted (map col (quicksort col t))"
  by (simp add: sorts_def)

lemma sorts_sort_key: "sorts sort_key"
  by (simp add: sorts_def)

lemma mset_sort_values_desc:
  "sorts quicksort \<Longrightarrow> mset (sort_values_desc quicksort col t) = mset t"
  by (simp add: sort_values_desc_def sorts_mset)

lemma set_sort_values_desc:
  assumes "sorts quicksort"
  shows "set (sort_values_desc quicksort col t) = set t"
  using mset_sort_values_desc [OF assms, of col t] by (rule mset_eq_setD)

lemma length_sort_values_desc:
  assumes "sorts quicksort"
  shows "length (sort_values_desc quicksort col t) = length t"
  using mset_sort_values_desc [OF assms, of col t] by (rule mset_eq_length)

lemma descending_sort_values_desc:
  assumes "sorts quicksort"
  shows "sorted_wrt (\<lambda>a b. col b \<le> col a) (sort_values_desc quicksort col t)"
proof -
  have "sorted_wrt (\<lambda>a b. col a \<le> col b) (quicksort col (rev t))"
    using sorts_sorted [OF assms, of col "rev t"] by (simp add: sorted_map)
  then show ?thesis
    by (simp add: sort_values_desc_def sorted_wrt_rev)
qed

text \<open>A table of two rows with different values has one sorted order.\<close>

lemma sorted_pair_unique:
  assumes "mset xs = {#a, b#}" and "sorted (map col xs)" and "col a < col b"
  shows "xs = [a, b]"
proof -
  from assms(1) have "length xs = 2"
    using mset_eq_length [of xs "[a, b]"] by simp
  then obtain p q where xs: "xs = [p, q]"
    by (cases xs; cases "tl xs") auto
  with assms(1) have "(p = a \<and> q = b) \<or> (p = b \<and> q = a)"
    by (auto simp: add_eq_conv_ex)
  with assms(2,3) xs show ?thesis by auto
qed

lemma sort_values_desc_pair:
  assumes "sorts quicksort" and "col a < col b"
  shows "sort_values_desc quicksort col [a, b] = [b, a]"
    and "sort_values_desc quicksort col [b, a] = [b, a]"
proof -
  have "quicksort col [b, a] = [a, b]"
    by (rule sorted_pair_unique [OF _ sorts_sorted [OF assms(1)] assms(2)])
      (simp add: sorts_mset [OF assms(1)])
  moreover have "quicksort col [a, b] = [a, b]"
    by (rule sorted_pair_unique [OF _ sorts_sorted [OF assms(1)] assms(2)])
      (simp add: sorts_mset [OF assms(1)])
  ultimately show "sort_values_desc quicksort col [a, b] = [b, a]"
    and "sort_values_desc quicksort col [b, a] = [b, a]"
    by (simp_all add: sort_values_desc_def)
qed

lemma sorted_wrt_take_drop:
  assumes "sorted_wrt R xs" "x \<in> set (take n xs)" "y \<in> set (drop n xs)"
  shows "R x y"
proof -
  have "sorted_wrt R (take n xs @ drop n xs)" using assms(1) by simp
  then show ?thesis using assms(2,3) unfolding sorted_wrt_append by blast
qed

lemma sorted_wrt_take_part: "sorted_wrt R xs \<Longrightarrow> sorted_wrt R (take n xs)"
proof -
  assume "sorted_wrt R xs"
  then have "sorted_wrt R (take n xs @ drop n xs)" by simp
  then show ?thesis unfolding sorted_wrt_append by blast
qed

subsection \<open>Sum-by-category ranking\<close>

lemma distinct_group_keys: "distinct (group_keys key df)"
  using strict_group_keys [of key df] by (simp add: strict_sorted_iff)

lemma length_groupby_agg:
  "length (groupby_agg key agg df) = card {k. \<exists>r\<in>set df. key r = Some k}"
proof -
  have "length (groupby_agg key agg df) = length (group_keys key df)"
    by (simp add: groupby_agg_def)
  also have "\<dots> = card (set (group_keys key df))"
    by (simp add: distinct_card distinct_group_keys)
  finally show ?thesis by (simp add: set_group_keys)
qed

lemma ranking_sorted:
  assumes "sorts quicksort"
  shows "sorted_wrt (\<lambda>a b. snd b \<le> snd a)
     (take n (sort_values_desc quicksort snd (groupby_agg key agg df)))"
  by (intro sorted_wrt_take_part descending_sort_values_desc assms)

lemma distinct_keys_sort_values_desc:
  assumes "sorts quicksort"
  shows "distinct (map fst (sort_values_desc quicksort col (groupby_agg key agg df)))"
proof -
  have "mset (map fst (sort_values_desc quicksort col (groupby_agg key agg df))) =
      mset (map fst (groupby_agg key agg df))"
    by (simp add: mset_sort_values_desc [OF assms])
  moreover have "distinct (map fst (groupby_agg key agg df))"
    by (simp add: keys_groupby_agg distinct_group_keys)
  ultimately show ?thesis
    using mset_eq_imp_distinct_iff by blast
qed

lemma keys_sort_values_desc:
  assumes "sorts quicksort"
  shows "fst ` set (sort_values_desc quicksort col (groupby_agg key agg df)) =
     {k. \<exists>r\<in>set df. key r = Some k}"
proof -
  have "fst ` set (groupby_agg key agg df) = set (map fst (groupby_agg key agg df))" by simp
  then show ?thesis
    by (simp only: set_sort_values_desc [OF assms] keys_groupby_agg set_group_keys)
qed

lemma ranking_distinct:
  assumes "sorts quicksort"
  shows "distinct (map fst (take n (sort_values_desc quicksort snd (groupby_agg key agg df))))"
  using distinct_keys_sort_values_desc [OF assms, of snd key agg df]
  by (simp add: take_map [symmetric] distinct_take)

lemma ranking_member:
  assumes "sorts quicksort"
    and "(k, v) \<in> set (take n (sort_values_desc quicksort snd (groupby_agg key agg df)))"
  shows "(\<exists>r\<in>set df. key r = Some k) \<and> v = agg (get_group key k df)"
proof -
  from assms(2) have "(k, v) \<in> set (sort_values_desc quicksort snd (groupby_agg key agg df))"
    by (rule in_set_takeD)
  then show ?thesis by (simp add: set_sort_values_desc [OF assms(1)] in_groupby_agg)
qed

lemma ranking_length:
  assumes "sorts quicksort"
  shows "length (take n (sort_values_desc quicksort snd (groupby_agg key agg df))) =
     min n (card {k. \<exists>r\<in>set df. key r = Some k})"
  by (simp add: length_sort_values_desc [OF assms] length_groupby_agg min.commute)

lemma ranking_top:
  fixes agg :: "'a list \<Rightarrow> 'v::linorder"
  assumes "sorts quicksort"
    and "\<exists>r\<in>set df. key r = Some k"
    and "k \<notin> fst ` set (take n (sort_values_desc quicksort snd (groupby_agg key agg df)))"
    and "(k', v') \<in> set (take n (sort_values_desc quicksort snd (groupby_agg key agg df)))"
  shows "agg (get_group key k df) \<le> v'"
proof -
  let ?F = "sort_values_desc quicksort snd (groupby_agg key agg df)"
  have "(k, agg (get_group key k df)) \<in> set ?F"
    using assms(2) by (simp add: set_sort_values_desc [OF assms(1)] in_groupby_agg)
  then have "(k, agg (get_group key k df)) \<in> set (take n ?F @ drop n ?F)" by simp
  then have "(k, agg (get_group key k df)) \<in> set (drop n ?F)"
    using assms(3) by (auto simp: image_iff simp del: append_take_drop_id)
  moreover have "sorted_wrt (\<lambda>a b. snd b \<le> snd a) ?F"
    by (intro descending_sort_values_desc assms(1))
  ultimately show ?thesis
    using sorted_wrt_take_drop [OF _ assms(4), of _ "(k, agg (get_group key k df))"] by fastforce
qed

text \<open>With no more groups than the cut, the ranking holds every group.\<close>

lemma ranking_all_groups:
  assumes "sorts quicksort" and "card {k. \<exists>r\<in>set df. key r = Some k} \<le> n"
  shows "length (take n (sort_values_desc quicksort snd (groupby_agg key agg df))) =
           card {k. \<exists>r\<in>set df. key r = Some k}"
    and "fst ` set (take n (sort_values_desc quicksort snd (groupby_agg key agg df))) =
           {k. \<exists>r\<in>set df. key r = Some k}"
proof -
  have "length (sort_values_desc quicksort snd (groupby_agg key agg df)) \<le> n"
    using assms(2) by (simp add: length_sort_values_desc [OF assms(1)] length_groupby_agg)
  then have t: "take n (sort_values_desc quicksort snd (groupby_agg key agg df)) =
      sort_values_desc quicksort snd (groupby_agg key agg df)"
    by simp
  show "length (take n (sort_values_desc quicksort snd (groupby_agg key agg df))) =
           card {k. \<exists>r\<in>set df. key r = Some k}"
    by (simp only: t length_sort_values_desc [OF assms(1)] length_groupby_agg)
  show "fst ` set (take n (sort_values_desc quicksort snd (groupby_agg key agg df))) =
           {k. \<exists>r\<in>set df. key r = Some k}"
    by (simp only: t keys_sort_values_desc [OF assms(1)])
qed

text \<open>
  C4 (as amended). The top products are the families with their summed sales, sorted by
  the sum, descending, and cut to ten: one row per family, each a family of the data with
  the sum of its sales; the sums descend; there are ten rows, or as many as there are
  families; a family left out has a sum no larger than any family kept; and the top
  products of a store are the ranking of that store's rows. This holds whatever the
  sorting routine does with equal sums, of whose order nothing is said. On the three
  rows (A, 10), (B, 30), (A, 5) the ranking is (B, 30), (A, 15).
\<close>

theorem top_products_ranking:
  assumes "sorts quicksort"
  shows "sorted_wrt (\<lambda>a b. snd b \<le> snd a) (top_products quicksort df)
   \<and> distinct (map fst (top_products quicksort df))
   \<and> (\<forall>(k, v) \<in> set (top_products quicksort df).
         (\<exists>r\<in>set df. family r = Some k)
         \<and> v = sum_list (map sales (filter (\<lambda>r. family r = Some k) df)))
   \<and> length (top_products quicksort df) = min 10 (card {k. \<exists>r\<in>set df. family r = Some k})
   \<and> (\<forall>k. (\<exists>r\<in>set df. family r = Some k) \<and> k \<notin> fst ` set (top_products quicksort df) \<longrightarrow>
         (\<forall>(k', v') \<in> set (top_products quicksort df).
            sum_list (map sales (filter (\<lambda>r. family r = Some k) df)) \<le> v'))
   \<and> top_store_products quicksort df store_selected =
       top_products quicksort (df_store df store_selected)
   \<and> top_products quicksort family_rows = [(''B'', 30), (''A'', 15)]"
proof (intro conjI)
  show "sorted_wrt (\<lambda>a b. snd b \<le> snd a) (top_products quicksort df)"
    unfolding top_products_def by (rule ranking_sorted [OF assms])
  show "distinct (map fst (top_products quicksort df))"
    unfolding top_products_def by (rule ranking_distinct [OF assms])
  show "\<forall>(k, v) \<in> set (top_products quicksort df).
         (\<exists>r\<in>set df. family r = Some k)
         \<and> v = sum_list (map sales (filter (\<lambda>r. family r = Some k) df))"
    unfolding top_products_def
    using ranking_member [OF assms, of _ _ 10 family "col_sum sales" df]
    by (auto simp: col_sum_def get_group_def)
  show "length (top_products quicksort df) = min 10 (card {k. \<exists>r\<in>set df. family r = Some k})"
    unfolding top_products_def by (rule ranking_length [OF assms])
  show "\<forall>k. (\<exists>r\<in>set df. family r = Some k) \<and> k \<notin> fst ` set (top_products quicksort df) \<longrightarrow>
         (\<forall>(k', v') \<in> set (top_products quicksort df).
            sum_list (map sales (filter (\<lambda>r. family r = Some k) df)) \<le> v')"
    unfolding top_products_def
    using ranking_top [OF assms, of df family _ 10 "col_sum sales"]
    by (auto simp: col_sum_def get_group_def)
  show "top_store_products quicksort df store_selected =
      top_products quicksort (df_store df store_selected)"
    by (simp add: top_store_products_def top_products_def)
  have g: "groupby_agg family (col_sum sales) family_rows = [(''A'', 15), (''B'', 30)]"
    by (simp add: eval_defs family_rows_def)
  show "top_products quicksort family_rows = [(''B'', 30), (''A'', 15)]"
    by (simp add: top_products_def g sort_values_desc_pair(1) [OF assms])
qed

theorem top_products_ranking_witness:
  "sorts (sort_key :: (string \<times> real, real) sorter)
   \<and> top_products sort_key family_rows = [(''B'', 30), (''A'', 15)]
   \<and> first_appearance_ranking family sales 2 family_rows = [(''B'', 30), (''A'', 15)]
   \<and> length (top_products sort_key family_rows) = 2"
  using top_products_ranking [OF sorts_sort_key, of family_rows 1]
  by (simp add: eval_defs sorts_sort_key first_appearance_ranking_def family_rows_def)

text \<open>
  The claim as written fails on ties. The grouped sums of B, A with equal totals are the
  same table whether B or A comes first in the data, so the code gives one ranking for
  both orders, whatever its sorting routine; the specification's ranking lists B first
  for one and A first for the other.
\<close>

theorem top_products_ties_counterexample:
  "\<not> (\<exists>quicksort.
        top_products quicksort tied_rows = first_appearance_ranking family sales 10 tied_rows
        \<and> top_products quicksort (rev tied_rows) =
            first_appearance_ranking family sales 10 (rev tied_rows))"
proof -
  have g: "groupby_agg family (col_sum sales) (rev tied_rows) =
      groupby_agg family (col_sum sales) tied_rows"
    by (simp add: eval_defs tied_rows_def)
  have same: "top_products quicksort (rev tied_rows) = top_products quicksort tied_rows"
    for quicksort
    by (simp add: top_products_def g)
  have "first_appearance_ranking family sales 10 tied_rows = [(''B'', 10), (''A'', 10)]"
    and "first_appearance_ranking family sales 10 (rev tied_rows) = [(''A'', 10), (''B'', 10)]"
    by (simp_all add: eval_defs first_appearance_ranking_def tied_rows_def)
  then show ?thesis by (auto simp: same)
qed

subsection \<open>Time buckets\<close>

lemma sorted_groupby_agg: "sorted (map fst (groupby_agg key agg df))"
  using strict_group_keys [of key df] by (simp add: keys_groupby_agg strict_sorted_iff)

lemma sort_values_asc_groupby_agg:
  "sort_values_asc fst (groupby_agg key agg df) = groupby_agg key agg df"
  by (simp add: sort_values_asc_def sort_key_id_if_sorted sorted_groupby_agg)

text \<open>
  On distinct keys every sorting routine agrees with the library's sort, so
  \<open>sort_values_asc\<close> is what the script's ascending sorts give.
\<close>

lemma filter_key_distinct:
  assumes "distinct (map col xs)" and "k \<in> set xs"
  shows "filter (\<lambda>x. col k = col x) xs = [k]"
  using assms by (induction xs) (auto simp: image_iff)

lemma sorts_distinct_keys:
  assumes "sorts quicksort" and "distinct (map col t)"
  shows "quicksort col t = sort_key col t"
proof -
  have m: "mset (quicksort col t) = mset t"
    by (rule sorts_mset [OF assms(1)])
  then have "mset (map col (quicksort col t)) = mset (map col t)" by simp
  then have d: "distinct (map col (quicksort col t))"
    using assms(2) mset_eq_imp_distinct_iff by blast
  have "sort_key col t = quicksort col t"
  proof (rule properties_for_sort_key [OF m _ sorts_sorted [OF assms(1)]])
    fix k assume k: "k \<in> set (quicksort col t)"
    then have "k \<in> set t" using m mset_eq_setD by blast
    then show "filter (\<lambda>x. col k = col x) (quicksort col t) = filter (\<lambda>x. col k = col x) t"
      by (simp add: filter_key_distinct [OF d k] filter_key_distinct [OF assms(2)])
  qed
  then show ?thesis by simp
qed

lemma mean_of_group:
  "(k, v) \<in> set (groupby_agg key (col_mean col) df) \<Longrightarrow>
     v = sum_list (map col (filter (\<lambda>r. key r = Some k) df))
         / real (length (filter (\<lambda>r. key r = Some k) df))"
  by (simp add: in_groupby_agg col_mean_def get_group_def)

text \<open>
  C6 (as amended). The weekly and the monthly means have one row per week, or month,
  that occurs in the data, over the rows of all years, in ascending order of the week, or
  month. The means per day of the week have one row per day that occurs, and are sorted
  by the mean, descending, not by the day.
\<close>

theorem time_bucket_order:
  assumes "sorts quicksort"
  shows "sorted_wrt (<) (map fst (week_avg df))
   \<and> set (map fst (week_avg df)) = {w. \<exists>r\<in>set df. week r = Some w}
   \<and> (\<forall>(w, v) \<in> set (week_avg df).
         v = sum_list (map sales (filter (\<lambda>r. week r = Some w) df))
             / real (length (filter (\<lambda>r. week r = Some w) df)))
   \<and> sorted_wrt (<) (map fst (month_avg df))
   \<and> set (map fst (month_avg df)) = {m. \<exists>r\<in>set df. month r = Some m}
   \<and> (\<forall>(m, v) \<in> set (month_avg df).
         v = sum_list (map sales (filter (\<lambda>r. month r = Some m) df))
             / real (length (filter (\<lambda>r. month r = Some m) df)))
   \<and> distinct (map fst (dow_avg quicksort df))
   \<and> set (map fst (dow_avg quicksort df)) = {d. \<exists>r\<in>set df. day_of_week r = Some d}
   \<and> (\<forall>(d, v) \<in> set (dow_avg quicksort df).
         v = sum_list (map sales (filter (\<lambda>r. day_of_week r = Some d) df))
             / real (length (filter (\<lambda>r. day_of_week r = Some d) df)))
   \<and> sorted_wrt (\<lambda>a b. snd b \<le> snd a) (dow_avg quicksort df)"
proof (intro conjI)
  show "sorted_wrt (<) (map fst (week_avg df))"
    by (simp add: week_avg_def sort_values_asc_groupby_agg keys_groupby_agg strict_group_keys)
  show "set (map fst (week_avg df)) = {w. \<exists>r\<in>set df. week r = Some w}"
    by (simp only: week_avg_def sort_values_asc_groupby_agg keys_groupby_agg set_group_keys)
  show "\<forall>(w, v) \<in> set (week_avg df).
         v = sum_list (map sales (filter (\<lambda>r. week r = Some w) df))
             / real (length (filter (\<lambda>r. week r = Some w) df))"
    using mean_of_group [of _ _ week sales df]
    by (auto simp: week_avg_def sort_values_asc_groupby_agg)
  show "sorted_wrt (<) (map fst (month_avg df))"
    by (simp add: month_avg_def sort_values_asc_groupby_agg keys_groupby_agg strict_group_keys)
  show "set (map fst (month_avg df)) = {m. \<exists>r\<in>set df. month r = Some m}"
    by (simp only: month_avg_def sort_values_asc_groupby_agg keys_groupby_agg set_group_keys)
  show "\<forall>(m, v) \<in> set (month_avg df).
         v = sum_list (map sales (filter (\<lambda>r. month r = Some m) df))
             / real (length (filter (\<lambda>r. month r = Some m) df))"
    using mean_of_group [of _ _ month sales df]
    by (auto simp: month_avg_def sort_values_asc_groupby_agg)
  show "distinct (map fst (dow_avg quicksort df))"
    unfolding dow_avg_def by (rule distinct_keys_sort_values_desc [OF assms])
  show "set (map fst (dow_avg quicksort df)) = {d. \<exists>r\<in>set df. day_of_week r = Some d}"
    using keys_sort_values_desc [OF assms, of snd day_of_week "col_mean sales" df]
    by (simp add: dow_avg_def)
  show "\<forall>(d, v) \<in> set (dow_avg quicksort df).
         v = sum_list (map sales (filter (\<lambda>r. day_of_week r = Some d) df))
             / real (length (filter (\<lambda>r. day_of_week r = Some d) df))"
    using mean_of_group [of _ _ day_of_week sales df]
    by (auto simp: dow_avg_def set_sort_values_desc [OF assms])
  show "sorted_wrt (\<lambda>a b. snd b \<le> snd a) (dow_avg quicksort df)"
    unfolding dow_avg_def by (rule descending_sort_values_desc [OF assms])
qed

theorem time_bucket_order_witness:
  "sorts (sort_key :: (string \<times> real, real) sorter)
   \<and> week_avg weekday_rows = [(1, 5), (2, 3 / 2)]
   \<and> month_avg weekday_rows = [(1, 8 / 3)]
   \<and> dow_avg sort_key weekday_rows = [(''Tuesday'', 5), (''Monday'', 3 / 2)]"
  using time_bucket_order [OF sorts_sort_key, of weekday_rows]
  by (simp add: eval_defs sorts_sort_key week_avg_def month_avg_def dow_avg_def weekday_rows_def
      day1_def day2_def)

text \<open>
  The claim as written fails for the day of the week: whatever the sorting routine,
  Tuesday, with the larger mean, comes before Monday, so the days are not in their order.
\<close>

theorem dow_avg_order_counterexample:
  "\<not> (\<exists>quicksort. sorts quicksort \<and> sorted (map fst (dow_avg quicksort weekday_rows)))"
proof
  assume "\<exists>quicksort. sorts quicksort \<and> sorted (map fst (dow_avg quicksort weekday_rows))"
  then obtain quicksort :: "(string \<times> real, real) sorter"
    where s: "sorts quicksort" and o: "sorted (map fst (dow_avg quicksort weekday_rows))"
    by blast
  have g: "groupby_agg day_of_week (col_mean sales) weekday_rows =
      [(''Monday'', 3 / 2), (''Tuesday'', 5)]"
    by (simp add: eval_defs weekday_rows_def)
  have "dow_avg quicksort weekday_rows = [(''Tuesday'', 5), (''Monday'', 3 / 2)]"
    by (simp add: dow_avg_def g sort_values_desc_pair(1) [OF s])
  with o show False by simp
qed

subsection \<open>Transactions per year\<close>

lemma map_filter_Nil_iff: "List.map_filter f xs = [] \<longleftrightarrow> (\<forall>x\<in>set xs. f x = None)"
  by (induction xs) (auto simp: List.map_filter_def)

lemma sum_min_count_one:
  "sum_min_count (Suc 0) col g =
     (if \<forall>x\<in>set g. col x = None then None else Some (sum_list (List.map_filter col g)))"
proof -
  show ?thesis
    by (simp add: sum_min_count_def Let_def map_filter_Nil_iff)
qed

text \<open>
  C10. The transactions per year of a state: one row per year that occurs on the rows of
  the state in the transaction view, in ascending order of the year; the total is null
  when every transactions value of that year is null, and otherwise the sum of the values
  that are not null.
\<close>

theorem tx_year_sums:
  "sorted_wrt (<) (map fst (tx_year tx_base state_selected))
   \<and> set (map fst (tx_year tx_base state_selected)) =
       {y. \<exists>t\<in>set tx_base. b_state t = Some state_selected \<and> b_year t = Some y}
   \<and> (\<forall>(y, v) \<in> set (tx_year tx_base state_selected).
         v = (if \<forall>t\<in>set tx_base. b_state t = Some state_selected \<and> b_year t = Some y
                    \<longrightarrow> b_transactions t = None
              then None
              else Some (sum_list (List.map_filter b_transactions
                     (filter (\<lambda>t. b_state t = Some state_selected \<and> b_year t = Some y) tx_base)))))"
proof (intro conjI)
  show "sorted_wrt (<) (map fst (tx_year tx_base state_selected))"
    by (simp add: tx_year_def sort_values_asc_groupby_agg keys_groupby_agg strict_group_keys)
  show "set (map fst (tx_year tx_base state_selected)) =
       {y. \<exists>t\<in>set tx_base. b_state t = Some state_selected \<and> b_year t = Some y}"
    by (auto simp: tx_year_def sort_values_asc_groupby_agg keys_groupby_agg set_group_keys
        tx_state_def simp del: set_map)
  have g: "get_group b_year y (tx_state tx_base state_selected) =
      filter (\<lambda>t. b_state t = Some state_selected \<and> b_year t = Some y) tx_base" for y
    by (simp add: get_group_def tx_state_def conj_commute)
  show "\<forall>(y, v) \<in> set (tx_year tx_base state_selected).
         v = (if \<forall>t\<in>set tx_base. b_state t = Some state_selected \<and> b_year t = Some y
                    \<longrightarrow> b_transactions t = None
              then None
              else Some (sum_list (List.map_filter b_transactions
                     (filter (\<lambda>t. b_state t = Some state_selected \<and> b_year t = Some y) tx_base))))"
    by (auto simp: tx_year_def sort_values_asc_groupby_agg in_groupby_agg g sum_min_count_one)
qed


theorem tx_year_sums_witness:
  "tx_year (transactions_base state_rows) ''Pichincha'' = [(2017, Some 870)]
   \<and> tx_year (transactions_base state_rows) ''Guayas'' = [(2017, None)]"
  using tx_year_sums [of "transactions_base state_rows" "''Pichincha''"]
  by (simp add: eval_defs tx_year_def tx_state_def sum_min_count_def transactions_base_def
      select_cols_def base_date_store_def state_rows_def day1_def day2_def)

subsection \<open>The monthly join\<close>

lemma map_filter_all_Some:
  "\<forall>x\<in>set xs. f x \<noteq> None \<Longrightarrow> length (List.map_filter f xs) = length xs"
  by (induction xs) (auto simp: List.map_filter_def)

lemma year_month_key_Some:
  "year_month_key r = Some (y, m) \<longleftrightarrow> year r = Some y \<and> month r = Some m"
  by (simp add: year_month_key_def split: option.splits)

lemma get_group_oil_ok:
  "get_group year_month_key (y, m) (oil_ok df) =
     filter (\<lambda>r. year r = Some y \<and> month r = Some m \<and> dcoilwtico r \<noteq> None) df"
  by (auto simp: get_group_def oil_ok_def year_month_key_Some intro: filter_cong)

text \<open>
  C7. The monthly join: after the rows without an oil price are dropped, one row per
  pair (year, month) that occurs, in ascending order of the pair, holding the mean of the
  oil price and the sum of the sales over the rows of the pair that are left, and the
  text made of the year, a hyphen and the month padded to two characters.
\<close>

theorem oil_month_join:
  "map (\<lambda>q. (o_year q, o_month q)) (oil_month astype_str df) =
     group_keys year_month_key (oil_ok df)
   \<and> sorted_wrt (<) (map (\<lambda>q. (o_year q, o_month q)) (oil_month astype_str df))
   \<and> set (map (\<lambda>q. (o_year q, o_month q)) (oil_month astype_str df)) =
       {(y, m). \<exists>r\<in>set df. year r = Some y \<and> month r = Some m \<and> dcoilwtico r \<noteq> None}
   \<and> (\<forall>q \<in> set (oil_month astype_str df).
         (let g = filter (\<lambda>r. year r = Some (o_year q) \<and> month r = Some (o_month q)
                               \<and> dcoilwtico r \<noteq> None) df
          in g \<noteq> []
             \<and> length (List.map_filter dcoilwtico g) = length g
             \<and> avg_oil q = sum_list (List.map_filter dcoilwtico g) / real (length g)
             \<and> total_sales q = sum_list (map sales g)
             \<and> year_month q = astype_str (o_year q) @ ''-'' @ zfill 2 (astype_str (o_month q))))"
proof (intro conjI)
  let ?G = "groupby_agg year_month_key (\<lambda>g. (mean_skipna dcoilwtico g, col_sum sales g)) (oil_ok df)"
  have keys: "map (\<lambda>q. (o_year q, o_month q)) (oil_month astype_str df) = map fst ?G"
    by (simp add: oil_month_def comp_def case_prod_beta)
  show k: "map (\<lambda>q. (o_year q, o_month q)) (oil_month astype_str df) =
      group_keys year_month_key (oil_ok df)"
    by (simp only: keys keys_groupby_agg)
  show "sorted_wrt (<) (map (\<lambda>q. (o_year q, o_month q)) (oil_month astype_str df))"
    by (simp only: k strict_group_keys)
  show "set (map (\<lambda>q. (o_year q, o_month q)) (oil_month astype_str df)) =
       {(y, m). \<exists>r\<in>set df. year r = Some y \<and> month r = Some m \<and> dcoilwtico r \<noteq> None}"
    unfolding k set_group_keys by (auto simp: oil_ok_def year_month_key_Some)
  show "\<forall>q \<in> set (oil_month astype_str df).
         (let g = filter (\<lambda>r. year r = Some (o_year q) \<and> month r = Some (o_month q)
                               \<and> dcoilwtico r \<noteq> None) df
          in g \<noteq> []
             \<and> length (List.map_filter dcoilwtico g) = length g
             \<and> avg_oil q = sum_list (List.map_filter dcoilwtico g) / real (length g)
             \<and> total_sales q = sum_list (map sales g)
             \<and> year_month q = astype_str (o_year q) @ ''-'' @ zfill 2 (astype_str (o_month q)))"
  proof
    fix q assume "q \<in> set (oil_month astype_str df)"
    then obtain y m a t where in_G: "((y, m), (a, t)) \<in> set ?G"
      and q: "q = \<lparr>o_year = y, o_month = m, avg_oil = a, total_sales = t,
             year_month = astype_str y @ ''-'' @ zfill 2 (astype_str m)\<rparr>"
      by (auto simp: oil_month_def)
    let ?g = "filter (\<lambda>r. year r = Some y \<and> month r = Some m \<and> dcoilwtico r \<noteq> None) df"
    from in_G have ex: "\<exists>r\<in>set (oil_ok df). year_month_key r = Some (y, m)"
      and a: "a = mean_skipna dcoilwtico ?g" and t: "t = col_sum sales ?g"
      by (simp_all add: in_groupby_agg get_group_oil_ok)
    from ex have ne: "?g \<noteq> []"
      by (auto simp: oil_ok_def year_month_key_Some filter_empty_conv)
    have len: "length (List.map_filter dcoilwtico ?g) = length ?g"
      by (rule map_filter_all_Some) simp
    show "let g = filter (\<lambda>r. year r = Some (o_year q) \<and> month r = Some (o_month q)
                               \<and> dcoilwtico r \<noteq> None) df
          in g \<noteq> []
             \<and> length (List.map_filter dcoilwtico g) = length g
             \<and> avg_oil q = sum_list (List.map_filter dcoilwtico g) / real (length g)
             \<and> total_sales q = sum_list (map sales g)
             \<and> year_month q = astype_str (o_year q) @ ''-'' @ zfill 2 (astype_str (o_month q))"
      using ne len by (simp add: q a t mean_skipna_def col_sum_def Let_def)
  qed
qed

theorem oil_month_join_witness:
  "oil_month str_int oil_rows =
     [\<lparr>o_year = 2017, o_month = 1, avg_oil = 103 / 2, total_sales = 15, year_month = ''2017-01''\<rparr>]"
  using oil_month_join [of str_int oil_rows]
  by (simp add: eval_defs oil_month_def oil_ok_def year_month_key_def mean_skipna_def
      oil_rows_def day1_def day2_def str_int_def digit_char_def zfill_def)

subsection \<open>Empty inputs and short rankings\<close>

lemma sort_values_desc_Nil: "sorts quicksort \<Longrightarrow> sort_values_desc quicksort col [] = []"
  using sorts_mset [of quicksort col "[]"] by (simp add: sort_values_desc_def)

lemma sort_values_asc_Nil: "sort_values_asc col [] = []"
  by (simp add: sort_values_asc_def)

lemma stable_sort_desc_Nil: "stable_sort_desc col [] = []"
  by (simp add: stable_sort_desc_def)

lemma drop_duplicates_Nil: "drop_duplicates cols [] = []"
  by (simp add: drop_duplicates_def)

lemmas on_empty = groupby_agg_Nil sort_values_asc_Nil stable_sort_desc_Nil drop_duplicates_Nil

lemma set_drop_duplicates_seen: "set (drop_duplicates_seen cols seen xs) \<subseteq> set xs"
  by (induction xs arbitrary: seen) auto

lemma transactions_base_state:
  assumes "\<forall>r\<in>set df. state r \<noteq> Some st"
  shows "\<forall>t\<in>set (transactions_base df). b_state t \<noteq> Some st"
proof -
  have "set (transactions_base df) \<subseteq> set (map select_cols df)"
    unfolding transactions_base_def drop_duplicates_def by (rule set_drop_duplicates_seen)
  then show ?thesis using assms by (auto simp: select_cols_def)
qed

text \<open>The first rows per key: every key once.\<close>

lemma keys_drop_duplicates_seen:
  "set (map cols (drop_duplicates_seen cols seen xs)) = set (map cols xs) - set seen
   \<and> distinct (map cols (drop_duplicates_seen cols seen xs))"
  by (induction xs arbitrary: seen) auto

lemma keys_drop_duplicates:
  "cols ` set (drop_duplicates cols xs) = cols ` set xs"
  "distinct (map cols (drop_duplicates cols xs))"
  using keys_drop_duplicates_seen [of cols "[]" xs] by (simp_all add: drop_duplicates_def)

lemma length_drop_duplicates: "length (drop_duplicates cols xs) = card (cols ` set xs)"
proof -
  have "length (drop_duplicates cols xs) = length (map cols (drop_duplicates cols xs))" by simp
  also have "\<dots> = card (set (map cols (drop_duplicates cols xs)))"
    by (rule distinct_card [symmetric]) (rule keys_drop_duplicates(2))
  finally show ?thesis by (simp add: keys_drop_duplicates(1))
qed

text \<open>With no more stores than the cut, the table of leaders has a row for every store.\<close>

lemma leaders_all_stores:
  assumes "sorts quicksort"
    and "card {s. \<exists>r\<in>set df. store_nbr r = s \<and> family r \<noteq> None} \<le> n"
  shows "length (take n (sort_values_desc quicksort (\<lambda>(s, f, v). v)
            (drop_duplicates fst (sort_values_asc fst (stable_sort_desc (\<lambda>(s, f, v). v)
               (map (\<lambda>((s, f), v). (s, f, v)) (groupby_agg store_family (col_sum sales) df)))))))
         = card {s. \<exists>r\<in>set df. store_nbr r = s \<and> family r \<noteq> None}"
    and "fst ` set (take n (sort_values_desc quicksort (\<lambda>(s, f, v). v)
            (drop_duplicates fst (sort_values_asc fst (stable_sort_desc (\<lambda>(s, f, v). v)
               (map (\<lambda>((s, f), v). (s, f, v)) (groupby_agg store_family (col_sum sales) df)))))))
         = {s. \<exists>r\<in>set df. store_nbr r = s \<and> family r \<noteq> None}"
proof -
  let ?S = "{s. \<exists>r\<in>set df. store_nbr r = s \<and> family r \<noteq> None}"
  let ?T = "map (\<lambda>((s, f), v). (s, f, v)) (groupby_agg store_family (col_sum sales) df)"
  let ?T1 = "sort_values_asc fst (stable_sort_desc (\<lambda>(s, f, v). v) ?T)"
  let ?T2 = "drop_duplicates fst ?T1"
  let ?F = "sort_values_desc quicksort (\<lambda>(s, f, v). v) ?T2"
  have "fst ` set ?T = fst ` fst ` set (groupby_agg store_family (col_sum sales) df)"
    by (force simp: image_iff)
  also have "\<dots> = fst ` set (group_keys store_family df)"
    by (simp flip: keys_groupby_agg [of store_family "col_sum sales" df])
  also have "\<dots> = ?S"
    by (force simp: set_group_keys store_family_def image_iff)
  finally have T: "fst ` set ?T = ?S" .
  have "set ?T1 = set ?T"
    by (simp add: sort_values_asc_def stable_sort_desc_def)
  then have T1: "fst ` set ?T1 = ?S"
    by (simp only: T)
  have T2: "fst ` set ?T2 = ?S"
    by (simp only: keys_drop_duplicates(1) T1)
  have l2: "length ?T2 = card ?S"
    by (simp only: length_drop_duplicates T1)
  have l: "length ?F = card ?S" and k: "fst ` set ?F = ?S"
    by (simp_all only: length_sort_values_desc [OF assms(1)] set_sort_values_desc [OF assms(1)] T2 l2)
  then have t: "take n ?F = ?F"
    using assms(2) by simp
  show "length (take n ?F) = card ?S" by (simp only: t l)
  show "fst ` set (take n ?F) = ?S" by (simp only: t k)
qed

text \<open>
  C9. Every table of the catalogue is empty on an empty dataset; a state with no row
  gives an empty store ranking, an empty table of leaders and empty transactions per
  year, a store with no row and a dataset without oil prices likewise. Every ranking
  that is cut to N rows (products, stores, stores in promotion, products of a store,
  stores of a state, leaders per store) holds every group when there are N groups or
  fewer; and the tables that are not cut have a row for every group.
\<close>

theorem catalogue_on_empty:
  fixes qs :: "(string \<times> real, real) sorter"
    and qi :: "(int \<times> real, real) sorter"
    and qt :: "(int \<times> string \<times> real, real) sorter"
    and df :: "'a sales_row_scheme list"
  assumes "sorts qs" and "sorts qi" and "sorts qt"
  shows "top_products qs ([] :: 'a sales_row_scheme list) = []
   \<and> sales_by_store qi ([] :: 'a sales_row_scheme list) = []
   \<and> promo_sales_by_store qi ([] :: 'a sales_row_scheme list) = []
   \<and> dow_avg qs ([] :: 'a sales_row_scheme list) = []
   \<and> week_avg ([] :: 'a sales_row_scheme list) = []
   \<and> month_avg ([] :: 'a sales_row_scheme list) = []
   \<and> sales_by_year ([] :: 'a sales_row_scheme list) store_selected = []
   \<and> top_store_products qs ([] :: 'a sales_row_scheme list) store_selected = []
   \<and> tx_year [] state_selected = []
   \<and> sales_store_rank qi ([] :: 'a sales_row_scheme list) state_selected = []
   \<and> top_product_per_store qt ([] :: 'a sales_row_scheme list) state_selected = []
   \<and> promo_compare ([] :: 'a sales_row_scheme list) = []
   \<and> holiday_avg qs ([] :: 'a sales_row_scheme list) = []
   \<and> oil_month astype_str ([] :: 'a sales_row_scheme list) = []
   \<and> ((\<forall>r\<in>set df. state r \<noteq> Some state_selected) \<longrightarrow>
         sales_store_rank qi df state_selected = []
         \<and> top_product_per_store qt df state_selected = []
         \<and> tx_year (transactions_base df) state_selected = [])
   \<and> ((\<forall>r\<in>set df. store_nbr r \<noteq> store_selected) \<longrightarrow>
         sales_by_year df store_selected = [] \<and> top_store_products qs df store_selected = [])
   \<and> ((\<forall>r\<in>set df. dcoilwtico r = None) \<longrightarrow> oil_month astype_str df = [])
   \<and> (card {k. \<exists>r\<in>set df. family r = Some k} \<le> 10 \<longrightarrow>
         length (top_products qs df) = card {k. \<exists>r\<in>set df. family r = Some k}
         \<and> fst ` set (top_products qs df) = {k. \<exists>r\<in>set df. family r = Some k})
   \<and> (card {s. \<exists>r\<in>set df. store_nbr r = s} \<le> 30 \<longrightarrow>
         length (sales_by_store qi df) = card {s. \<exists>r\<in>set df. store_nbr r = s}
         \<and> fst ` set (sales_by_store qi df) = {s. \<exists>r\<in>set df. store_nbr r = s})
   \<and> (card {s. \<exists>r\<in>set df. 0 < onpromotion r \<and> store_nbr r = s} \<le> 10 \<longrightarrow>
         length (promo_sales_by_store qi df) = card {s. \<exists>r\<in>set df. 0 < onpromotion r \<and> store_nbr r = s}
         \<and> fst ` set (promo_sales_by_store qi df) = {s. \<exists>r\<in>set df. 0 < onpromotion r \<and> store_nbr r = s})
   \<and> (card {k. \<exists>r\<in>set df. store_nbr r = store_selected \<and> family r = Some k} \<le> 10 \<longrightarrow>
         length (top_store_products qs df store_selected) = card {k. \<exists>r\<in>set df. store_nbr r = store_selected \<and> family r = Some k}
         \<and> fst ` set (top_store_products qs df store_selected) = {k. \<exists>r\<in>set df. store_nbr r = store_selected \<and> family r = Some k})
   \<and> (card {s. \<exists>r\<in>set df. state r = Some state_selected \<and> store_nbr r = s} \<le> 10 \<longrightarrow>
         length (sales_store_rank qi df state_selected) = card {s. \<exists>r\<in>set df. state r = Some state_selected \<and> store_nbr r = s}
         \<and> fst ` set (sales_store_rank qi df state_selected) = {s. \<exists>r\<in>set df. state r = Some state_selected \<and> store_nbr r = s})
   \<and> (card {s. \<exists>r\<in>set df. state r = Some state_selected \<and> store_nbr r = s \<and> family r \<noteq> None} \<le> 15 \<longrightarrow>
         length (top_product_per_store qt df state_selected) = card {s. \<exists>r\<in>set df. state r = Some state_selected \<and> store_nbr r = s \<and> family r \<noteq> None}
         \<and> fst ` set (top_product_per_store qt df state_selected) = {s. \<exists>r\<in>set df. state r = Some state_selected \<and> store_nbr r = s \<and> family r \<noteq> None})
   \<and> fst ` set (dow_avg qs df) = {d. \<exists>r\<in>set df. day_of_week r = Some d}
   \<and> fst ` set (holiday_avg qs df) = {h. \<exists>r\<in>set df. holiday_type r = Some h}
   \<and> set (map fst (week_avg df)) = {w. \<exists>r\<in>set df. week r = Some w}
   \<and> set (map fst (month_avg df)) = {m. \<exists>r\<in>set df. month r = Some m}
   \<and> set (map fst (sales_by_year df store_selected)) = {y. \<exists>r\<in>set df. store_nbr r = store_selected \<and> year r = Some y}
   \<and> set (map fst (promo_compare df)) = promo_flag ` set df"
proof (intro conjI)
  show "top_products qs ([] :: 'a sales_row_scheme list) = []"
    by (simp add: top_products_def on_empty sort_values_desc_Nil [OF assms(1)])
  show "sales_by_store qi ([] :: 'a sales_row_scheme list) = []"
    by (simp add: sales_by_store_def on_empty sort_values_desc_Nil [OF assms(2)])
  show "promo_sales_by_store qi ([] :: 'a sales_row_scheme list) = []"
    by (simp add: promo_sales_by_store_def promo_df_def on_empty sort_values_desc_Nil [OF assms(2)])
  show "dow_avg qs ([] :: 'a sales_row_scheme list) = []"
    by (simp add: dow_avg_def on_empty sort_values_desc_Nil [OF assms(1)])
  show "week_avg ([] :: 'a sales_row_scheme list) = []"
    by (simp add: week_avg_def on_empty)
  show "month_avg ([] :: 'a sales_row_scheme list) = []"
    by (simp add: month_avg_def on_empty)
  show "sales_by_year ([] :: 'a sales_row_scheme list) store_selected = []"
    by (simp add: sales_by_year_def df_store_def on_empty)
  show "top_store_products qs ([] :: 'a sales_row_scheme list) store_selected = []"
    by (simp add: top_store_products_def df_store_def on_empty sort_values_desc_Nil [OF assms(1)])
  show "tx_year [] state_selected = []"
    by (simp add: tx_year_def tx_state_def on_empty)
  show "sales_store_rank qi ([] :: 'a sales_row_scheme list) state_selected = []"
    by (simp add: sales_store_rank_def df_state_def on_empty sort_values_desc_Nil [OF assms(2)])
  show "top_product_per_store qt ([] :: 'a sales_row_scheme list) state_selected = []"
    by (simp add: top_product_per_store_def df_state_def on_empty sort_values_desc_Nil [OF assms(3)])
  show "promo_compare ([] :: 'a sales_row_scheme list) = []"
    by (simp add: promo_compare_def on_empty)
  show "holiday_avg qs ([] :: 'a sales_row_scheme list) = []"
    by (simp add: holiday_avg_def on_empty sort_values_desc_Nil [OF assms(1)])
  show "oil_month astype_str ([] :: 'a sales_row_scheme list) = []"
    by (simp add: oil_month_def oil_ok_def on_empty)
  show "((\<forall>r\<in>set df. state r \<noteq> Some state_selected) \<longrightarrow>
         sales_store_rank qi df state_selected = []
         \<and> top_product_per_store qt df state_selected = []
         \<and> tx_year (transactions_base df) state_selected = [])"
  proof
    assume a: "\<forall>r\<in>set df. state r \<noteq> Some state_selected"
    then have "df_state df state_selected = []"
      by (simp add: df_state_def)
    moreover have "tx_state (transactions_base df) state_selected = []"
      using transactions_base_state [OF a] by (simp add: tx_state_def)
    ultimately show "sales_store_rank qi df state_selected = []
         \<and> top_product_per_store qt df state_selected = []
         \<and> tx_year (transactions_base df) state_selected = []"
      by (simp add: sales_store_rank_def top_product_per_store_def tx_year_def on_empty
          sort_values_desc_Nil [OF assms(2)] sort_values_desc_Nil [OF assms(3)])
  qed
  show "((\<forall>r\<in>set df. store_nbr r \<noteq> store_selected) \<longrightarrow>
         sales_by_year df store_selected = [] \<and> top_store_products qs df store_selected = [])"
  proof
    assume "\<forall>r\<in>set df. store_nbr r \<noteq> store_selected"
    then have "df_store df store_selected = []"
      by (simp add: df_store_def)
    then show "sales_by_year df store_selected = [] \<and> top_store_products qs df store_selected = []"
      by (simp add: sales_by_year_def top_store_products_def on_empty
          sort_values_desc_Nil [OF assms(1)])
  qed
  show "((\<forall>r\<in>set df. dcoilwtico r = None) \<longrightarrow> oil_month astype_str df = [])"
  proof
    assume "\<forall>r\<in>set df. dcoilwtico r = None"
    then have "oil_ok df = []"
      by (simp add: oil_ok_def)
    then show "oil_month astype_str df = []"
      by (simp add: oil_month_def on_empty)
  qed
  show "(card {k. \<exists>r\<in>set df. family r = Some k} \<le> 10 \<longrightarrow>
         length (top_products qs df) = card {k. \<exists>r\<in>set df. family r = Some k}
         \<and> fst ` set (top_products qs df) = {k. \<exists>r\<in>set df. family r = Some k})"
  proof
    assume c: "card {k. \<exists>r\<in>set df. family r = Some k} \<le> 10"
    show "length (top_products qs df) = card {k. \<exists>r\<in>set df. family r = Some k}
         \<and> fst ` set (top_products qs df) = {k. \<exists>r\<in>set df. family r = Some k}"
      using ranking_all_groups [OF assms(1), where df=df and key=family
          and agg="col_sum sales" and n=10] c
      unfolding top_products_def by blast
  qed
  show "(card {s. \<exists>r\<in>set df. store_nbr r = s} \<le> 30 \<longrightarrow>
         length (sales_by_store qi df) = card {s. \<exists>r\<in>set df. store_nbr r = s}
         \<and> fst ` set (sales_by_store qi df) = {s. \<exists>r\<in>set df. store_nbr r = s})"
  proof
    assume c: "card {s. \<exists>r\<in>set df. store_nbr r = s} \<le> 30"
    have S: "{k. \<exists>r\<in>set df. Some (store_nbr r) = Some k} = {s. \<exists>r\<in>set df. store_nbr r = s}"
      by simp
    show "length (sales_by_store qi df) = card {s. \<exists>r\<in>set df. store_nbr r = s}
         \<and> fst ` set (sales_by_store qi df) = {s. \<exists>r\<in>set df. store_nbr r = s}"
      using ranking_all_groups [OF assms(2), where df=df and key="\<lambda>r. Some (store_nbr r)"
          and agg="col_sum sales" and n=30] c
      unfolding sales_by_store_def S by blast
  qed
  show "(card {s. \<exists>r\<in>set df. 0 < onpromotion r \<and> store_nbr r = s} \<le> 10 \<longrightarrow>
         length (promo_sales_by_store qi df) = card {s. \<exists>r\<in>set df. 0 < onpromotion r \<and> store_nbr r = s}
         \<and> fst ` set (promo_sales_by_store qi df) = {s. \<exists>r\<in>set df. 0 < onpromotion r \<and> store_nbr r = s})"
  proof
    assume c: "card {s. \<exists>r\<in>set df. 0 < onpromotion r \<and> store_nbr r = s} \<le> 10"
    have S: "{k. \<exists>r\<in>set (promo_df df). Some (store_nbr r) = Some k} = {s. \<exists>r\<in>set df. 0 < onpromotion r \<and> store_nbr r = s}"
      by (auto simp: promo_df_def)
    show "length (promo_sales_by_store qi df) = card {s. \<exists>r\<in>set df. 0 < onpromotion r \<and> store_nbr r = s}
         \<and> fst ` set (promo_sales_by_store qi df) = {s. \<exists>r\<in>set df. 0 < onpromotion r \<and> store_nbr r = s}"
      using ranking_all_groups [OF assms(2), where df="promo_df df" and key="\<lambda>r. Some (store_nbr r)"
          and agg="col_sum sales" and n=10] c
      unfolding promo_sales_by_store_def S by blast
  qed
  show "(card {k. \<exists>r\<in>set df. store_nbr r = store_selected \<and> family r = Some k} \<le> 10 \<longrightarrow>
         length (top_store_products qs df store_selected) = card {k. \<exists>r\<in>set df. store_nbr r = store_selected \<and> family r = Some k}
         \<and> fst ` set (top_store_products qs df store_selected) = {k. \<exists>r\<in>set df. store_nbr r = store_selected \<and> family r = Some k})"
  proof
    assume c: "card {k. \<exists>r\<in>set df. store_nbr r = store_selected \<and> family r = Some k} \<le> 10"
    have S: "{k. \<exists>r\<in>set (df_store df store_selected). family r = Some k} = {k. \<exists>r\<in>set df. store_nbr r = store_selected \<and> family r = Some k}"
      by (auto simp: df_store_def)
    show "length (top_store_products qs df store_selected) = card {k. \<exists>r\<in>set df. store_nbr r = store_selected \<and> family r = Some k}
         \<and> fst ` set (top_store_products qs df store_selected) = {k. \<exists>r\<in>set df. store_nbr r = store_selected \<and> family r = Some k}"
      using ranking_all_groups [OF assms(1), where df="df_store df store_selected" and key=family
          and agg="col_sum sales" and n=10] c
      unfolding top_store_products_def S by blast
  qed
  show "(card {s. \<exists>r\<in>set df. state r = Some state_selected \<and> store_nbr r = s} \<le> 10 \<longrightarrow>
         length (sales_store_rank qi df state_selected) = card {s. \<exists>r\<in>set df. state r = Some state_selected \<and> store_nbr r = s}
         \<and> fst ` set (sales_store_rank qi df state_selected) = {s. \<exists>r\<in>set df. state r = Some state_selected \<and> store_nbr r = s})"
  proof
    assume c: "card {s. \<exists>r\<in>set df. state r = Some state_selected \<and> store_nbr r = s} \<le> 10"
    have S: "{k. \<exists>r\<in>set (df_state df state_selected). Some (store_nbr r) = Some k} = {s. \<exists>r\<in>set df. state r = Some state_selected \<and> store_nbr r = s}"
      by (auto simp: df_state_def)
    show "length (sales_store_rank qi df state_selected) = card {s. \<exists>r\<in>set df. state r = Some state_selected \<and> store_nbr r = s}
         \<and> fst ` set (sales_store_rank qi df state_selected) = {s. \<exists>r\<in>set df. state r = Some state_selected \<and> store_nbr r = s}"
      using ranking_all_groups [OF assms(2), where df="df_state df state_selected" and key="\<lambda>r. Some (store_nbr r)"
          and agg="col_sum sales" and n=10] c
      unfolding sales_store_rank_def S by blast
  qed
  show "(card {s. \<exists>r\<in>set df. state r = Some state_selected \<and> store_nbr r = s \<and> family r \<noteq> None} \<le> 15 \<longrightarrow>
         length (top_product_per_store qt df state_selected) = card {s. \<exists>r\<in>set df. state r = Some state_selected \<and> store_nbr r = s \<and> family r \<noteq> None}
         \<and> fst ` set (top_product_per_store qt df state_selected) = {s. \<exists>r\<in>set df. state r = Some state_selected \<and> store_nbr r = s \<and> family r \<noteq> None})"
  proof
    assume c: "card {s. \<exists>r\<in>set df. state r = Some state_selected \<and> store_nbr r = s \<and> family r \<noteq> None} \<le> 15"
    have S: "{s. \<exists>r\<in>set (df_state df state_selected). store_nbr r = s \<and> family r \<noteq> None} = {s. \<exists>r\<in>set df. state r = Some state_selected \<and> store_nbr r = s \<and> family r \<noteq> None}"
      by (auto simp: df_state_def)
    show "length (top_product_per_store qt df state_selected) = card {s. \<exists>r\<in>set df. state r = Some state_selected \<and> store_nbr r = s \<and> family r \<noteq> None}
         \<and> fst ` set (top_product_per_store qt df state_selected) = {s. \<exists>r\<in>set df. state r = Some state_selected \<and> store_nbr r = s \<and> family r \<noteq> None}"
      using leaders_all_stores [OF assms(3), of "df_state df state_selected"] c
      unfolding top_product_per_store_def Let_def S by blast
  qed
  show "fst ` set (dow_avg qs df) = {d. \<exists>r\<in>set df. day_of_week r = Some d}"
    unfolding dow_avg_def by (rule keys_sort_values_desc [OF assms(1)])
  show "fst ` set (holiday_avg qs df) = {h. \<exists>r\<in>set df. holiday_type r = Some h}"
    unfolding holiday_avg_def by (rule keys_sort_values_desc [OF assms(1)])
  show "set (map fst (week_avg df)) = {w. \<exists>r\<in>set df. week r = Some w}"
    by (simp only: week_avg_def sort_values_asc_groupby_agg keys_groupby_agg set_group_keys)
  show "set (map fst (month_avg df)) = {m. \<exists>r\<in>set df. month r = Some m}"
    by (simp only: month_avg_def sort_values_asc_groupby_agg keys_groupby_agg set_group_keys)
  show "set (map fst (sales_by_year df store_selected)) = {y. \<exists>r\<in>set df. store_nbr r = store_selected \<and> year r = Some y}"
    by (auto simp: sales_by_year_def sort_values_asc_groupby_agg keys_groupby_agg set_group_keys
        df_store_def simp del: set_map)
  show "set (map fst (promo_compare df)) = promo_flag ` set df"
    by (auto simp: promo_compare_def keys_groupby_agg set_group_keys simp del: set_map)
qed

theorem catalogue_on_empty_witness:
  "sorts (sort_key :: (string \<times> real, real) sorter)
   \<and> sorts (sort_key :: (int \<times> real, real) sorter)
   \<and> sorts (sort_key :: (int \<times> string \<times> real, real) sorter)
   \<and> list_all (\<lambda>r. state r \<noteq> Some ''Azuay'') state_rows
   \<and> sales_store_rank sort_key state_rows ''Azuay'' = []
   \<and> top_product_per_store sort_key state_rows ''Azuay'' = []
   \<and> tx_year (transactions_base state_rows) ''Azuay'' = []
   \<and> sales_store_rank sort_key state_rows ''Pichincha'' = [(1, 45), (3, 14)]
   \<and> top_product_per_store sort_key state_rows ''Pichincha'' = [(1, ''B'', 30), (3, ''A'', 14)]"
  using catalogue_on_empty [OF sorts_sort_key sorts_sort_key sorts_sort_key,
      where df=state_rows and state_selected="''Azuay''" and store_selected=1
        and astype_str=str_int]
  by (simp add: eval_defs sorts_sort_key sales_store_rank_def top_product_per_store_def
      store_family_def tx_year_def tx_state_def df_state_def transactions_base_def
      select_cols_def base_date_store_def state_rows_def day1_def day2_def)

subsection \<open>The loader, step by step\<close>

lemma and_then_Inr: "and_then m f = Inr y \<longleftrightarrow> (\<exists>x. m = Inr x \<and> f x = Inr y)"
  by (cases m) (simp_all add: and_then_def)

lemma and_then_Inl: "and_then m f = Inl e \<longleftrightarrow> m = Inl e \<or> (\<exists>x. m = Inr x \<and> f x = Inl e)"
  by (cases m) (simp_all add: and_then_def)

lemma columns_set_column:
  "columns (set_column c f df) = (if c \<in> set (columns df) then columns df else columns df @ [c])"
  by (simp add: set_column_def)

lemma rows_set_column: "rows (set_column c f df) = map (\<lambda>r. r(c := f r)) (rows df)"
  by (simp add: set_column_def)

lemma column_set_column:
  "column c' (set_column c f df) = (if c' = c then map f (rows df) else column c' df)"
  by (simp add: column_def set_column_def comp_def)

lemma set_column_same:
  "c \<in> set (columns df) \<Longrightarrow> set_column c (\<lambda>r. astype_category (r c)) df = df"
  by (simp add: set_column_def astype_category_def)

lemma convert_categories_fold:
  "fold (\<lambda>c d. if c \<in> set (columns d) then set_column c (\<lambda>r. astype_category (r c)) d else d)
     cs df = df"
  by (induction cs) (simp_all add: set_column_same)

lemma convert_categories_id: "convert_categories df = df"
  unfolding convert_categories_def by (rule convert_categories_fold)

lemma require_column_Inr: "require_column c df = Inr df' \<longleftrightarrow> c \<in> set (columns df) \<and> df' = df"
  by (auto simp: require_column_def)

lemma convert_date_Inr:
  "convert_date pd df = Inr df' \<longleftrightarrow>
     ''date'' \<in> set (columns df) \<and> df' = set_column ''date'' (\<lambda>r. to_datetime pd (r ''date'')) df"
  by (auto simp: convert_date_def and_then_Inr require_column_Inr)

lemma convert_sales_Inr:
  "convert_sales pd df = Inr df' \<longleftrightarrow>
     ''sales'' \<in> set (columns df)
     \<and> df' = set_column ''sales'' (\<lambda>r. fillna (Num 0) (to_numeric pd (r ''sales''))) df"
  by (auto simp: convert_sales_def and_then_Inr require_column_Inr)

lemma is_infinite_fillna: "is_infinite (fillna (Num 0) c) = is_infinite c"
  by (simp add: fillna_def is_infinite_def)

lemma convert_onpromotion_Inr:
  "convert_onpromotion pd df = Inr df' \<longleftrightarrow>
     ''onpromotion'' \<in> set (columns df)
     \<and> (\<forall>x\<in>set (column ''onpromotion'' df). \<not> is_infinite (to_numeric pd x))
     \<and> df' = set_column ''onpromotion''
          (\<lambda>r. astype_int64 (fillna (Num 0) (to_numeric pd (r ''onpromotion'')))) df"
  by (auto simp: convert_onpromotion_def and_then_Inr require_column_Inr is_infinite_fillna)

lemma convert_transactions_Inr:
  "convert_transactions pd df = Inr df' \<longleftrightarrow>
     ''transactions'' \<in> set (columns df)
     \<and> df' = set_column ''transactions'' (\<lambda>r. to_numeric pd (r ''transactions'')) df"
  by (auto simp: convert_transactions_def and_then_Inr require_column_Inr)

text \<open>The frame after lines 37-51.\<close>

lemma normalise_Inr:
  assumes "normalise pd dfs = Inr df"
  shows "\<exists>d4. backfill_week pd (backfill_month (backfill_year d4)) = Inr df
     \<and> columns d4 = columns (drop_unnamed (concat_frames dfs))
     \<and> column ''date'' d4 = map (to_datetime pd) (column ''date'' (drop_unnamed (concat_frames dfs)))
     \<and> column ''sales'' d4 =
         map (\<lambda>c. fillna (Num 0) (to_numeric pd c))
           (column ''sales'' (drop_unnamed (concat_frames dfs)))
     \<and> column ''onpromotion'' d4 =
         map (\<lambda>c. astype_int64 (fillna (Num 0) (to_numeric pd c)))
           (column ''onpromotion'' (drop_unnamed (concat_frames dfs)))
     \<and> column ''transactions'' d4 =
         map (to_numeric pd) (column ''transactions'' (drop_unnamed (concat_frames dfs)))
     \<and> (\<forall>c. c \<noteq> ''date'' \<and> c \<noteq> ''sales'' \<and> c \<noteq> ''onpromotion'' \<and> c \<noteq> ''transactions''
            \<longrightarrow> column c d4 = column c (drop_unnamed (concat_frames dfs)))"
  using assms
  by (auto simp: normalise_def and_then_Inr convert_date_Inr convert_sales_Inr
      convert_onpromotion_Inr convert_transactions_Inr convert_categories_id
      columns_set_column column_def rows_set_column comp_def)
lemma needs_backfill_cong:
  "columns d = columns d' \<Longrightarrow> column c d = column c d' \<Longrightarrow> needs_backfill c d = needs_backfill c d'"
  by (simp add: needs_backfill_def isna_any_def)

lemma needs_backfill_set_column:
  "c' \<noteq> c \<Longrightarrow> needs_backfill c' (set_column c f d) = needs_backfill c' d"
  by (simp add: needs_backfill_def isna_any_def column_set_column columns_set_column)

lemma column_backfill_year:
  "column c (backfill_year d) =
     (if c = ''year'' \<and> needs_backfill ''year'' d then map dt_year (column ''date'' d)
      else column c d)"
  by (simp add: backfill_year_def column_def set_column_def comp_def)

lemma column_backfill_month:
  "column c (backfill_month d) =
     (if c = ''month'' \<and> needs_backfill ''month'' d then map dt_month (column ''date'' d)
      else column c d)"
  by (simp add: backfill_month_def column_def set_column_def comp_def)

lemma backfill_week_Inr:
  assumes "backfill_week pd d = Inr df"
  shows "column c df =
     (if c = ''week'' \<and> needs_backfill ''week'' d
      then map (dt_isocalendar_week pd) (column ''date'' d) else column c d)"
  using assms
  by (auto simp: backfill_week_def column_def set_column_def comp_def split: if_splits)

lemma needs_backfill_year: "c \<noteq> ''year'' \<Longrightarrow> needs_backfill c (backfill_year d) = needs_backfill c d"
  by (simp add: backfill_year_def needs_backfill_set_column)

lemma needs_backfill_month: "c \<noteq> ''month'' \<Longrightarrow> needs_backfill c (backfill_month d) = needs_backfill c d"
  by (simp add: backfill_month_def needs_backfill_set_column)

lemma backfill_Inr:
  assumes "backfill_week pd (backfill_month (backfill_year d)) = Inr df"
  shows "column ''year'' df =
           (if needs_backfill ''year'' d then map dt_year (column ''date'' d) else column ''year'' d)"
    and "column ''month'' df =
           (if needs_backfill ''month'' d then map dt_month (column ''date'' d) else column ''month'' d)"
    and "column ''week'' df =
           (if needs_backfill ''week'' d then map (dt_isocalendar_week pd) (column ''date'' d)
            else column ''week'' d)"
    and "c \<noteq> ''year'' \<Longrightarrow> c \<noteq> ''month'' \<Longrightarrow> c \<noteq> ''week'' \<Longrightarrow> column c df = column c d"
  by (simp_all add: backfill_week_Inr [OF assms] column_backfill_month column_backfill_year
      needs_backfill_month needs_backfill_year)

text \<open>What \<^verbatim>\<open>load_data\<close> returns, column by column, from the concatenated frame.\<close>

lemma load_data_columns:
  assumes "read_all fs paths = Inr dfs" and "load_data pd fs = Inr df"
  shows "column ''date'' df = map (to_datetime pd) (column ''date'' (drop_unnamed (concat_frames dfs)))"
    and "column ''sales'' df =
           map (\<lambda>c. fillna (Num 0) (to_numeric pd c))
             (column ''sales'' (drop_unnamed (concat_frames dfs)))"
    and "column ''onpromotion'' df =
           map (\<lambda>c. astype_int64 (fillna (Num 0) (to_numeric pd c)))
             (column ''onpromotion'' (drop_unnamed (concat_frames dfs)))"
    and "column ''transactions'' df =
           map (to_numeric pd) (column ''transactions'' (drop_unnamed (concat_frames dfs)))"
    and "column ''year'' df =
           (if needs_backfill ''year'' (drop_unnamed (concat_frames dfs))
            then map dt_year (column ''date'' df)
            else column ''year'' (drop_unnamed (concat_frames dfs)))"
    and "column ''month'' df =
           (if needs_backfill ''month'' (drop_unnamed (concat_frames dfs))
            then map dt_month (column ''date'' df)
            else column ''month'' (drop_unnamed (concat_frames dfs)))"
    and "column ''week'' df =
           (if needs_backfill ''week'' (drop_unnamed (concat_frames dfs))
            then map (dt_isocalendar_week pd) (column ''date'' df)
            else column ''week'' (drop_unnamed (concat_frames dfs)))"
    and "c \<noteq> ''date'' \<Longrightarrow> c \<noteq> ''sales'' \<Longrightarrow> c \<noteq> ''onpromotion'' \<Longrightarrow> c \<noteq> ''transactions'' \<Longrightarrow>
         c \<noteq> ''year'' \<Longrightarrow> c \<noteq> ''month'' \<Longrightarrow> c \<noteq> ''week'' \<Longrightarrow>
           column c df = column c (drop_unnamed (concat_frames dfs))"
proof -
  let ?raw = "drop_unnamed (concat_frames dfs)"
  have "normalise pd dfs = Inr df"
    using assms by (simp add: load_data_def and_then_def)
  from normalise_Inr [OF this] obtain d4 where
    b: "backfill_week pd (backfill_month (backfill_year d4)) = Inr df"
    and cs: "columns d4 = columns ?raw"
    and d: "column ''date'' d4 = map (to_datetime pd) (column ''date'' ?raw)"
    and s: "column ''sales'' d4 = map (\<lambda>c. fillna (Num 0) (to_numeric pd c)) (column ''sales'' ?raw)"
    and p: "column ''onpromotion'' d4 =
              map (\<lambda>c. astype_int64 (fillna (Num 0) (to_numeric pd c))) (column ''onpromotion'' ?raw)"
    and t: "column ''transactions'' d4 = map (to_numeric pd) (column ''transactions'' ?raw)"
    and o: "\<And>c. c \<noteq> ''date'' \<Longrightarrow> c \<noteq> ''sales'' \<Longrightarrow> c \<noteq> ''onpromotion'' \<Longrightarrow> c \<noteq> ''transactions''
            \<Longrightarrow> column c d4 = column c ?raw"
    by blast
  have same: "column c df = column c d4" if "c \<noteq> ''year''" "c \<noteq> ''month''" "c \<noteq> ''week''" for c
    using that by (rule backfill_Inr(4) [OF b])
  have n: "needs_backfill ''year'' d4 = needs_backfill ''year'' ?raw"
    "needs_backfill ''month'' d4 = needs_backfill ''month'' ?raw"
    "needs_backfill ''week'' d4 = needs_backfill ''week'' ?raw"
    by (simp_all add: needs_backfill_cong [OF cs] o)
  show date: "column ''date'' df = map (to_datetime pd) (column ''date'' ?raw)"
    by (simp add: same d)
  show "column ''sales'' df = map (\<lambda>c. fillna (Num 0) (to_numeric pd c)) (column ''sales'' ?raw)"
    by (simp add: same s)
  show "column ''onpromotion'' df =
      map (\<lambda>c. astype_int64 (fillna (Num 0) (to_numeric pd c))) (column ''onpromotion'' ?raw)"
    by (simp add: same p)
  show "column ''transactions'' df = map (to_numeric pd) (column ''transactions'' ?raw)"
    by (simp add: same t)
  show "column ''year'' df =
           (if needs_backfill ''year'' ?raw then map dt_year (column ''date'' df)
            else column ''year'' ?raw)"
    using backfill_Inr(1) [OF b] by (simp add: n date d o)
  show "column ''month'' df =
           (if needs_backfill ''month'' ?raw then map dt_month (column ''date'' df)
            else column ''month'' ?raw)"
    using backfill_Inr(2) [OF b] by (simp add: n date d o)
  show "column ''week'' df =
           (if needs_backfill ''week'' ?raw then map (dt_isocalendar_week pd) (column ''date'' df)
            else column ''week'' ?raw)"
    using backfill_Inr(3) [OF b] by (simp add: n date d o)
  show "column c df = column c ?raw"
    if "c \<noteq> ''date''" "c \<noteq> ''sales''" "c \<noteq> ''onpromotion''" "c \<noteq> ''transactions''"
      "c \<noteq> ''year''" "c \<noteq> ''month''" "c \<noteq> ''week''"
    using that by (simp add: same o)
qed
lemma normalise_present:
  assumes "''date'' \<in> set (columns (drop_unnamed (concat_frames dfs)))"
    and "''sales'' \<in> set (columns (drop_unnamed (concat_frames dfs)))"
    and "''onpromotion'' \<in> set (columns (drop_unnamed (concat_frames dfs)))"
    and "''transactions'' \<in> set (columns (drop_unnamed (concat_frames dfs)))"
    and "\<forall>x\<in>set (column ''onpromotion'' (drop_unnamed (concat_frames dfs))).
           \<not> is_infinite (to_numeric pd x)"
  shows "normalise pd dfs =
     backfill_week pd (backfill_month (backfill_year
       (set_column ''transactions'' (\<lambda>r. to_numeric pd (r ''transactions''))
         (set_column ''onpromotion''
            (\<lambda>r. astype_int64 (fillna (Num 0) (to_numeric pd (r ''onpromotion''))))
            (set_column ''sales'' (\<lambda>r. fillna (Num 0) (to_numeric pd (r ''sales'')))
               (set_column ''date'' (\<lambda>r. to_datetime pd (r ''date''))
                  (drop_unnamed (concat_frames dfs))))))))"
  using assms
  by (simp add: normalise_def and_then_def convert_date_def convert_sales_def
      convert_onpromotion_def convert_transactions_def convert_categories_id
      require_column_def columns_set_column column_set_column is_infinite_fillna)

lemma backfill_week_total:
  assumes "needs_backfill ''week'' d \<Longrightarrow> NaN \<notin> set (column ''date'' d)"
  shows "\<exists>df. backfill_week pd d = Inr df"
  using assms by (auto simp: backfill_week_def isna_any_def)

lemma normalise_total:
  assumes "''date'' \<in> set (columns (drop_unnamed (concat_frames dfs)))"
    and "''sales'' \<in> set (columns (drop_unnamed (concat_frames dfs)))"
    and "''onpromotion'' \<in> set (columns (drop_unnamed (concat_frames dfs)))"
    and "''transactions'' \<in> set (columns (drop_unnamed (concat_frames dfs)))"
    and "\<forall>x\<in>set (column ''onpromotion'' (drop_unnamed (concat_frames dfs))).
           \<not> is_infinite (to_numeric pd x)"
    and "needs_backfill ''week'' (drop_unnamed (concat_frames dfs)) \<Longrightarrow>
           NaN \<notin> set (map (to_datetime pd) (column ''date'' (drop_unnamed (concat_frames dfs))))"
  shows "\<exists>df. normalise pd dfs = Inr df"
proof -
  let ?raw = "drop_unnamed (concat_frames dfs)"
  let ?d4 = "set_column ''transactions'' (\<lambda>r. to_numeric pd (r ''transactions''))
         (set_column ''onpromotion''
            (\<lambda>r. astype_int64 (fillna (Num 0) (to_numeric pd (r ''onpromotion''))))
            (set_column ''sales'' (\<lambda>r. fillna (Num 0) (to_numeric pd (r ''sales'')))
               (set_column ''date'' (\<lambda>r. to_datetime pd (r ''date'')) ?raw)))"
  have n: "needs_backfill ''week'' (backfill_month (backfill_year ?d4)) = needs_backfill ''week'' ?raw"
    by (simp add: needs_backfill_month needs_backfill_year needs_backfill_set_column)
  have d: "column ''date'' (backfill_month (backfill_year ?d4)) =
       map (to_datetime pd) (column ''date'' ?raw)"
    by (simp add: column_backfill_month column_backfill_year column_set_column)
      (simp add: column_def)
  have "\<exists>df. backfill_week pd (backfill_month (backfill_year ?d4)) = Inr df"
    by (rule backfill_week_total) (use assms(6) in \<open>simp add: n d\<close>)
  then show ?thesis
    by (simp add: normalise_present [OF assms(1-5)])
qed

lemma load_data_total:
  assumes "read_all fs paths = Inr dfs"
    and "''date'' \<in> set (columns (drop_unnamed (concat_frames dfs)))"
    and "''sales'' \<in> set (columns (drop_unnamed (concat_frames dfs)))"
    and "''onpromotion'' \<in> set (columns (drop_unnamed (concat_frames dfs)))"
    and "''transactions'' \<in> set (columns (drop_unnamed (concat_frames dfs)))"
    and "\<forall>x\<in>set (column ''onpromotion'' (drop_unnamed (concat_frames dfs))).
           \<not> is_infinite (to_numeric pd x)"
    and "needs_backfill ''week'' (drop_unnamed (concat_frames dfs)) \<Longrightarrow>
           NaN \<notin> set (map (to_datetime pd) (column ''date'' (drop_unnamed (concat_frames dfs))))"
  shows "\<exists>df. load_data pd fs = Inr df"
  using normalise_total [OF assms(2-7)] assms(1) by (simp add: load_data_def and_then_def)

lemma read_two_files:
  "fs ''data/parte_1.csv.gz'' = Some d1 \<Longrightarrow> fs ''data/parte_2.csv.gz'' = Some d2 \<Longrightarrow>
     read_all fs paths = Inr [d1, d2]"
  by (simp add: paths_def read_csv_def and_then_def)

subsection \<open>Numeric columns\<close>

lemma to_numeric_cases:
  "to_numeric pd c = NaN \<or> (\<exists>x. to_numeric pd c = Num x) \<or> (\<exists>s. to_numeric pd c = Infty s)"
  by (simp add: to_numeric_def cell_of_number_def split: cell.splits option.splits number.splits)

lemma int64_of_real_range: "- (2 ^ 63) \<le> int64_of_real x \<and> int64_of_real x < 2 ^ 63"
  by (simp add: int64_of_real_def)

lemma int64_of_real_nonneg:
  assumes "0 \<le> x" and "x < 2 ^ 63"
  shows "int64_of_real x = trunc_real x" and "0 \<le> int64_of_real x"
proof -
  have t: "trunc_real x = \<lfloor>x\<rfloor>" and n: "0 \<le> \<lfloor>x\<rfloor>"
    using assms(1) by (simp_all add: trunc_real_def)
  have "real_of_int \<lfloor>x\<rfloor> < 2 ^ 63"
    using assms(2) by linarith
  then have "\<lfloor>x\<rfloor> < 2 ^ 63"
    by (metis of_int_less_iff of_int_numeral of_int_power)
  with t n show "int64_of_real x = trunc_real x" and "0 \<le> int64_of_real x"
    by (simp_all add: int64_of_real_def)
qed

text \<open>A load that returns has met no infinite promotion count.\<close>

lemma load_data_finite:
  assumes "read_all fs paths = Inr dfs" and "load_data pd fs = Inr df"
  shows "\<forall>x\<in>set (column ''onpromotion'' (drop_unnamed (concat_frames dfs))).
           \<not> is_infinite (to_numeric pd x)"
proof -
  have "normalise pd dfs = Inr df"
    using assms by (simp add: load_data_def and_then_def)
  then show ?thesis
    by (auto simp: normalise_def and_then_Inr convert_date_Inr convert_sales_Inr
        convert_onpromotion_Inr convert_categories_id column_set_column)
qed

text \<open>
  The two ways in which the cast to 64 bits departs from the number it is given: a value
  out of range becomes the smallest integer, and an infinite value stops the load.
\<close>

lemma astype_int64_out_of_range: "astype_int64 (Num (10 ^ 30)) = Int64 (- (2 ^ 63))"
  by (simp add: astype_int64_def int64_of_real_def trunc_real_def)

lemma convert_onpromotion_infinite:
  "convert_onpromotion pd (csv [''onpromotion''] [[Infty True]]) =
     Inl (ValueError ''Cannot convert non-finite values (NA or inf) to integer'')"
  by (simp add: convert_onpromotion_def require_column_def and_then_def csv_def column_def
      cells_def to_numeric_def fillna_def is_infinite_def)

text \<open>
  C2 (as amended). In the loaded data every sales cell is a number and every onpromotion
  cell a 64-bit integer, never a null: a missing value and a text that does not parse
  become 0.0 and 0; a finite value that parses is kept, with its sign, for onpromotion
  cut to an integer when it fits 64 bits; so sales are non-negative when the values that
  parse are finite and non-negative, and onpromotion when they are also below 2^63. The
  conversion of sales raises nothing once the column exists, and neither does the
  conversion of onpromotion when no value is infinite.
\<close>

theorem numeric_coercion:
  assumes "read_all fs paths = Inr dfs" and "load_data pd fs = Inr df"
  shows "column ''sales'' df =
           map (\<lambda>c. fillna (Num 0) (to_numeric pd c))
             (column ''sales'' (drop_unnamed (concat_frames dfs)))
   \<and> column ''onpromotion'' df =
           map (\<lambda>c. astype_int64 (fillna (Num 0) (to_numeric pd c)))
             (column ''onpromotion'' (drop_unnamed (concat_frames dfs)))
   \<and> (\<forall>c \<in> set (column ''sales'' df). c \<noteq> NaN)
   \<and> (\<forall>c \<in> set (column ''onpromotion'' df). \<exists>i. c = Int64 i \<and> - (2 ^ 63) \<le> i \<and> i < 2 ^ 63)
   \<and> (\<forall>c. c = NaN \<or> (\<exists>s. c = Str s) \<and> parse_number pd c = None \<longrightarrow>
          fillna (Num 0) (to_numeric pd c) = Num 0
          \<and> astype_int64 (fillna (Num 0) (to_numeric pd c)) = Int64 0)
   \<and> (\<forall>c x. c = Num x \<or> (\<exists>s. c = Str s) \<and> parse_number pd c = Some (Finite x) \<longrightarrow>
          fillna (Num 0) (to_numeric pd c) = Num x
          \<and> (- (2 ^ 63) \<le> trunc_real x \<and> trunc_real x < 2 ^ 63 \<longrightarrow>
               astype_int64 (fillna (Num 0) (to_numeric pd c)) = Int64 (trunc_real x)))
   \<and> ((\<forall>c \<in> set (column ''sales'' (drop_unnamed (concat_frames dfs))).
          to_numeric pd c = NaN \<or> (\<exists>x. to_numeric pd c = Num x \<and> 0 \<le> x))
        \<longrightarrow> (\<forall>c \<in> set (column ''sales'' df). \<exists>x. c = Num x \<and> 0 \<le> x))
   \<and> ((\<forall>c \<in> set (column ''onpromotion'' (drop_unnamed (concat_frames dfs))).
          to_numeric pd c = NaN \<or> (\<exists>x. to_numeric pd c = Num x \<and> 0 \<le> x \<and> x < 2 ^ 63))
        \<longrightarrow> (\<forall>c \<in> set (column ''onpromotion'' df). \<exists>i. c = Int64 i \<and> 0 \<le> i))
   \<and> (\<forall>d. ''sales'' \<in> set (columns d) \<longrightarrow> (\<exists>d'. convert_sales pd d = Inr d'))
   \<and> (\<forall>d. ''onpromotion'' \<in> set (columns d)
            \<and> (\<forall>x\<in>set (column ''onpromotion'' d). \<not> is_infinite (to_numeric pd x))
          \<longrightarrow> (\<exists>d'. convert_onpromotion pd d = Inr d'))"
proof -
  let ?raw = "drop_unnamed (concat_frames dfs)"
  note s = load_data_columns(2) [OF assms] and p = load_data_columns(3) [OF assms]
  note fin = load_data_finite [OF assms]
  have z: "int64_of_real 0 = 0"
    by (simp add: int64_of_real_def trunc_real_def)
  have 3: "\<forall>c \<in> set (column ''sales'' df). c \<noteq> NaN"
    unfolding s by (auto simp: fillna_def)
  have 4: "\<forall>c \<in> set (column ''onpromotion'' df). \<exists>i. c = Int64 i \<and> - (2 ^ 63) \<le> i \<and> i < 2 ^ 63"
  proof
    fix c assume "c \<in> set (column ''onpromotion'' df)"
    then obtain c0 where c0: "c0 \<in> set (column ''onpromotion'' ?raw)"
      and c: "c = astype_int64 (fillna (Num 0) (to_numeric pd c0))"
      unfolding p by auto
    from fin c0 have "\<not> is_infinite (to_numeric pd c0)" by blast
    with to_numeric_cases [of pd c0] obtain x where "c = Int64 (int64_of_real x)"
      unfolding c by (auto simp: fillna_def astype_int64_def is_infinite_def)
    then show "\<exists>i. c = Int64 i \<and> - (2 ^ 63) \<le> i \<and> i < 2 ^ 63"
      using int64_of_real_range [of x] by blast
  qed
  have 5: "\<forall>c. c = NaN \<or> (\<exists>s. c = Str s) \<and> parse_number pd c = None \<longrightarrow>
          fillna (Num 0) (to_numeric pd c) = Num 0
          \<and> astype_int64 (fillna (Num 0) (to_numeric pd c)) = Int64 0"
    by (auto simp: to_numeric_def fillna_def astype_int64_def z)
  have 6: "\<forall>c x. c = Num x \<or> (\<exists>s. c = Str s) \<and> parse_number pd c = Some (Finite x) \<longrightarrow>
          fillna (Num 0) (to_numeric pd c) = Num x
          \<and> (- (2 ^ 63) \<le> trunc_real x \<and> trunc_real x < 2 ^ 63 \<longrightarrow>
               astype_int64 (fillna (Num 0) (to_numeric pd c)) = Int64 (trunc_real x))"
    by (auto simp: to_numeric_def cell_of_number_def fillna_def astype_int64_def int64_of_real_def)
  have 7: "(\<forall>c \<in> set (column ''sales'' ?raw).
          to_numeric pd c = NaN \<or> (\<exists>x. to_numeric pd c = Num x \<and> 0 \<le> x))
        \<longrightarrow> (\<forall>c \<in> set (column ''sales'' df). \<exists>x. c = Num x \<and> 0 \<le> x)"
    unfolding s by (fastforce simp: fillna_def)
  have 8: "(\<forall>c \<in> set (column ''onpromotion'' ?raw).
          to_numeric pd c = NaN \<or> (\<exists>x. to_numeric pd c = Num x \<and> 0 \<le> x \<and> x < 2 ^ 63))
        \<longrightarrow> (\<forall>c \<in> set (column ''onpromotion'' df). \<exists>i. c = Int64 i \<and> 0 \<le> i)"
  proof (intro impI ballI)
    fix c
    assume a: "\<forall>c \<in> set (column ''onpromotion'' ?raw).
          to_numeric pd c = NaN \<or> (\<exists>x. to_numeric pd c = Num x \<and> 0 \<le> x \<and> x < 2 ^ 63)"
      and "c \<in> set (column ''onpromotion'' df)"
    then obtain c0 where c0: "c0 \<in> set (column ''onpromotion'' ?raw)"
      and c: "c = astype_int64 (fillna (Num 0) (to_numeric pd c0))"
      unfolding p by auto
    from a c0 consider "to_numeric pd c0 = NaN"
      | x where "to_numeric pd c0 = Num x" "0 \<le> x" "x < 2 ^ 63"
      by blast
    then show "\<exists>i. c = Int64 i \<and> 0 \<le> i"
    proof cases
      case 1
      then show ?thesis by (simp add: c fillna_def astype_int64_def z)
    next
      case 2
      then show ?thesis
        using int64_of_real_nonneg(2) [of x] by (simp add: c fillna_def astype_int64_def)
    qed
  qed
  have 9: "\<forall>d. ''sales'' \<in> set (columns d) \<longrightarrow> (\<exists>d'. convert_sales pd d = Inr d')"
    by (simp add: convert_sales_Inr)
  have 10: "\<forall>d. ''onpromotion'' \<in> set (columns d)
            \<and> (\<forall>x\<in>set (column ''onpromotion'' d). \<not> is_infinite (to_numeric pd x))
          \<longrightarrow> (\<exists>d'. convert_onpromotion pd d = Inr d')"
    by (simp add: convert_onpromotion_Inr)
  show ?thesis using s p 3 4 5 6 7 8 9 10 by blast
qed

lemma example_raw:
  "columns (drop_unnamed (concat_frames [example_part_1, example_part_2])) =
     [''date'', ''store_nbr'', ''family'', ''sales'', ''onpromotion'', ''transactions'',
      ''city'', ''month'']"
  "column ''date'' (drop_unnamed (concat_frames [example_part_1, example_part_2])) =
     [Str ''2017-01-02'', Str ''2017-01-03'', Str ''2017-01-03'']"
  "column ''sales'' (drop_unnamed (concat_frames [example_part_1, example_part_2])) =
     [Str ''12.5'', Str ''n/a'', NaN]"
  "column ''onpromotion'' (drop_unnamed (concat_frames [example_part_1, example_part_2])) =
     [Str ''abc'', Str ''3'', Num (27 / 10)]"
  "column ''city'' (drop_unnamed (concat_frames [example_part_1, example_part_2])) =
     [Str ''Quito'', Str ''Quito'', NaN]"
  "column ''month'' (drop_unnamed (concat_frames [example_part_1, example_part_2])) =
     [Num 7, Num 7, NaN]"
  by (simp_all add: raw_defs example_part_1_def example_part_2_def)

lemma example_read: "read_all example_files paths = Inr [example_part_1, example_part_2]"
  by (rule read_two_files) (simp_all add: example_files_def)

lemma example_loads: "\<exists>df. load_data example_pandas example_files = Inr df"
  by (rule load_data_total [OF example_read])
    (simp_all add: example_raw cell_defs)

theorem numeric_coercion_witness:
  "read_all example_files paths = Inr [example_part_1, example_part_2]
   \<and> map_sum id (\<lambda>df. (column ''sales'' df, column ''onpromotion'' df))
        (load_data example_pandas example_files) =
       Inr ([Num (25 / 2), Num 0, Num 0], [Int64 0, Int64 3, Int64 2])"
proof -
  from example_loads obtain df where df: "load_data example_pandas example_files = Inr df" ..
  from numeric_coercion [OF example_read df]
  have "column ''sales'' df = [Num (25 / 2), Num 0, Num 0]"
    and "column ''onpromotion'' df = [Int64 0, Int64 3, Int64 2]"
    by (simp_all add: example_raw cell_defs)
  then show ?thesis by (simp add: df example_read)
qed

lemma negative_raw:
  "columns (drop_unnamed (concat_frames [negative_part_1, negative_part_2])) =
     [''date'', ''sales'', ''onpromotion'', ''transactions'']"
  "column ''date'' (drop_unnamed (concat_frames [negative_part_1, negative_part_2])) =
     [Str ''2017-01-02'', Str ''2017-01-03'']"
  "column ''sales'' (drop_unnamed (concat_frames [negative_part_1, negative_part_2])) =
     [Num (- 5), Num 4]"
  "column ''onpromotion'' (drop_unnamed (concat_frames [negative_part_1, negative_part_2])) =
     [Num (- 3), Num 1]"
  by (simp_all add: raw_defs negative_part_1_def negative_part_2_def)

lemma negative_read: "read_all negative_files paths = Inr [negative_part_1, negative_part_2]"
  by (rule read_two_files) (simp_all add: negative_files_def)

lemma negative_loads: "\<exists>df. load_data example_pandas negative_files = Inr df"
  by (rule load_data_total [OF negative_read])
    (simp_all add: negative_raw cell_defs)

text \<open>
  The claim as written fails on the sign: sales of -5 and a promotion count of -3 in the
  files are loaded as they are.
\<close>

theorem negative_sales_counterexample:
  "map_sum id (\<lambda>df. (column ''sales'' df, column ''onpromotion'' df))
     (load_data example_pandas negative_files) =
   Inr ([Num (- 5), Num 4], [Int64 (- 3), Int64 1])"
proof -
  from negative_loads obtain df where df: "load_data example_pandas negative_files = Inr df" ..
  have "column ''sales'' df = [Num (- 5), Num 4]"
    and "column ''onpromotion'' df = [Int64 (- 3), Int64 1]"
    by (simp_all add: load_data_columns(2,3) [OF negative_read df] negative_raw cell_defs)
  then show ?thesis by (simp add: df)
qed

subsection \<open>Calendar columns\<close>

text \<open>
  C5 (as amended). For each of year, month and week: when the column is missing from the
  concatenated data or holds a null, the loader computes the whole column again from the
  parsed date, row by row the field of the date, and for year and month a null where the
  date did not parse; when the column is there and holds no null, it is kept as it was
  read, whether or not it agrees with the date.
\<close>

theorem backfill_whole_column:
  assumes "read_all fs paths = Inr dfs" and "load_data pd fs = Inr df"
  shows "column ''date'' df = map (to_datetime pd) (column ''date'' (drop_unnamed (concat_frames dfs)))
   \<and> column ''year'' df =
       (if ''year'' \<notin> set (columns (drop_unnamed (concat_frames dfs)))
           \<or> NaN \<in> set (column ''year'' (drop_unnamed (concat_frames dfs)))
        then map dt_year (column ''date'' df)
        else column ''year'' (drop_unnamed (concat_frames dfs)))
   \<and> column ''month'' df =
       (if ''month'' \<notin> set (columns (drop_unnamed (concat_frames dfs)))
           \<or> NaN \<in> set (column ''month'' (drop_unnamed (concat_frames dfs)))
        then map dt_month (column ''date'' df)
        else column ''month'' (drop_unnamed (concat_frames dfs)))
   \<and> column ''week'' df =
       (if ''week'' \<notin> set (columns (drop_unnamed (concat_frames dfs)))
           \<or> NaN \<in> set (column ''week'' (drop_unnamed (concat_frames dfs)))
        then map (dt_isocalendar_week pd) (column ''date'' df)
        else column ''week'' (drop_unnamed (concat_frames dfs)))
   \<and> (\<forall>t. dt_year (Ts t) = Int64 (ts_year t) \<and> dt_month (Ts t) = Int64 (ts_month t)
          \<and> dt_isocalendar_week pd (Ts t) = Int64 (isocalendar_week pd t))
   \<and> dt_year NaN = NaN \<and> dt_month NaN = NaN"
  using load_data_columns(1,5,6,7) [OF assms]
  by (simp add: needs_backfill_def isna_any_def dt_year_def dt_month_def dt_isocalendar_week_def)

lemma example_calendar:
  "needs_backfill ''year'' (drop_unnamed (concat_frames [example_part_1, example_part_2]))"
  "needs_backfill ''month'' (drop_unnamed (concat_frames [example_part_1, example_part_2]))"
  "needs_backfill ''week'' (drop_unnamed (concat_frames [example_part_1, example_part_2]))"
  by (simp_all add: raw_defs example_part_1_def example_part_2_def)

theorem backfill_whole_column_witness:
  "read_all example_files paths = Inr [example_part_1, example_part_2]
   \<and> column ''month'' (drop_unnamed (concat_frames [example_part_1, example_part_2])) =
       [Num 7, Num 7, NaN]
   \<and> map_sum id
        (\<lambda>df. (column ''date'' df, column ''year'' df, column ''month'' df, column ''week'' df))
        (load_data example_pandas example_files) =
       Inr ([Ts day1, Ts day2, Ts day2], [Int64 2017, Int64 2017, Int64 2017],
            [Int64 1, Int64 1, Int64 1], [Int64 1, Int64 1, Int64 1])"
proof -
  from example_loads obtain df where df: "load_data example_pandas example_files = Inr df" ..
  from backfill_whole_column [OF example_read df]
  have "column ''date'' df = [Ts day1, Ts day2, Ts day2]"
    and "column ''year'' df = [Int64 2017, Int64 2017, Int64 2017]"
    and "column ''month'' df = [Int64 1, Int64 1, Int64 1]"
    and "column ''week'' df = [Int64 1, Int64 1, Int64 1]"
    by (simp_all add: example_raw cell_defs day1_def day2_def)
  then show ?thesis by (simp add: df example_read example_raw)
qed

lemma stale_raw:
  "columns (drop_unnamed (concat_frames [stale_part_1, stale_part_2])) =
     [''date'', ''sales'', ''onpromotion'', ''transactions'', ''year'', ''month'', ''week'']"
  "column ''date'' (drop_unnamed (concat_frames [stale_part_1, stale_part_2])) =
     [Str ''2017-01-02'', Str ''no date'']"
  "column ''onpromotion'' (drop_unnamed (concat_frames [stale_part_1, stale_part_2])) =
     [Num 0, Num 1]"
  "column ''year'' (drop_unnamed (concat_frames [stale_part_1, stale_part_2])) =
     [Num 1999, Num 1999]"
  "column ''month'' (drop_unnamed (concat_frames [stale_part_1, stale_part_2])) =
     [Num 7, Num 7]"
  "column ''week'' (drop_unnamed (concat_frames [stale_part_1, stale_part_2])) =
     [Num 30, Num 30]"
  "\<not> needs_backfill ''year'' (drop_unnamed (concat_frames [stale_part_1, stale_part_2]))"
  "\<not> needs_backfill ''month'' (drop_unnamed (concat_frames [stale_part_1, stale_part_2]))"
  "\<not> needs_backfill ''week'' (drop_unnamed (concat_frames [stale_part_1, stale_part_2]))"
  by (simp_all add: raw_defs stale_part_1_def stale_part_2_def)

lemma stale_read: "read_all stale_files paths = Inr [stale_part_1, stale_part_2]"
  by (rule read_two_files) (simp_all add: stale_files_def)

lemma stale_loads: "\<exists>df. load_data example_pandas stale_files = Inr df"
  by (rule load_data_total [OF stale_read])
    (simp_all add: stale_raw cell_defs)

text \<open>
  The claim as written fails when a calendar column is complete: it is kept, so the year
  1999 stays beside a date of 2017, and beside a date that did not parse.
\<close>

theorem stale_year_counterexample:
  "map_sum id
     (\<lambda>df. (column ''date'' df, column ''year'' df, column ''month'' df, column ''week'' df))
     (load_data example_pandas stale_files) =
   Inr ([Ts day1, NaN], [Num 1999, Num 1999], [Num 7, Num 7], [Num 30, Num 30])"
proof -
  from stale_loads obtain df where df: "load_data example_pandas stale_files = Inr df" ..
  have "column ''date'' df = [Ts day1, NaN]"
    and "column ''year'' df = [Num 1999, Num 1999]"
    and "column ''month'' df = [Num 7, Num 7]"
    and "column ''week'' df = [Num 30, Num 30]"
    by (simp_all add: load_data_columns(1,5,6,7) [OF stale_read df] stale_raw cell_defs)
  then show ?thesis by (simp add: df)
qed

subsection \<open>Load errors\<close>

lemma set_union_columns: "set (union_columns acc ds) = set acc \<union> (\<Union>d\<in>set ds. set (columns d))"
  by (induction ds arbitrary: acc) auto

lemma columns_concat_two:
  "set (columns (concat_frames [d1, d2])) = set (columns d1) \<union> set (columns d2)"
  by (auto simp: concat_frames_def set_union_columns)

lemma column_concat_two:
  "column c (concat_frames [d1, d2]) =
     (if c \<in> set (columns d1) then column c d1 else replicate (length (rows d1)) NaN)
     @ (if c \<in> set (columns d2) then column c d2 else replicate (length (rows d2)) NaN)"
  by (simp add: concat_frames_def reindex_rows_def column_def comp_def map_replicate_const)

lemma columns_drop_unnamed:
  "set (columns (drop_unnamed d)) = set (columns d) - {''Unnamed: 0''}"
  by (auto simp: drop_unnamed_def drop_column_def)

lemma normalise_Inl:
  assumes "normalise pd dfs = Inl e"
  shows "(\<exists>c. e = KeyError c \<and> c \<noteq> ''Unnamed: 0''
              \<and> c \<notin> set (columns (drop_unnamed (concat_frames dfs))))
         \<or> (\<exists>m. e = ValueError m)"
  using assms
  by (auto simp: normalise_def and_then_Inl and_then_Inr convert_date_def convert_sales_def
      convert_onpromotion_def convert_transactions_def convert_categories_id require_column_def
      columns_set_column backfill_week_def split: if_splits)

text \<open>
  C8 (as amended). A partition file that is missing or cannot be read ends the load with
  a file error and no dataset. Partitions of different schemas are not an error: the
  concatenation has the union of their columns, and a column that one partition lacks is
  null on the rows of that partition; when both files are read, the only errors are a
  column the loader reads that no partition has, and the conversion of the week.
\<close>

theorem load_errors:
  "(fs ''data/parte_1.csv.gz'' = None \<longrightarrow>
      load_data pd fs = Inl (FileError ''data/parte_1.csv.gz''))
   \<and> (fs ''data/parte_1.csv.gz'' \<noteq> None \<and> fs ''data/parte_2.csv.gz'' = None \<longrightarrow>
      load_data pd fs = Inl (FileError ''data/parte_2.csv.gz''))
   \<and> (\<forall>d1 d2. fs ''data/parte_1.csv.gz'' = Some d1 \<and> fs ''data/parte_2.csv.gz'' = Some d2 \<longrightarrow>
        load_data pd fs = normalise pd [d1, d2]
        \<and> set (columns (concat_frames [d1, d2])) = set (columns d1) \<union> set (columns d2)
        \<and> (\<forall>c. c \<in> set (columns d1) \<and> c \<notin> set (columns d2) \<longrightarrow>
              column c (concat_frames [d1, d2]) = column c d1 @ replicate (length (rows d2)) NaN)
        \<and> (\<forall>c. c \<notin> set (columns d1) \<and> c \<in> set (columns d2) \<longrightarrow>
              column c (concat_frames [d1, d2]) = replicate (length (rows d1)) NaN @ column c d2)
        \<and> (\<forall>e. load_data pd fs = Inl e \<longrightarrow>
              (\<exists>c. e = KeyError c \<and> c \<notin> set (columns d1) \<union> set (columns d2))
              \<or> (\<exists>m. e = ValueError m)))"
proof (intro conjI allI impI)
  assume "fs ''data/parte_1.csv.gz'' = None"
  then show "load_data pd fs = Inl (FileError ''data/parte_1.csv.gz'')"
    by (simp add: load_data_def paths_def read_csv_def and_then_def)
next
  assume "fs ''data/parte_1.csv.gz'' \<noteq> None \<and> fs ''data/parte_2.csv.gz'' = None"
  then show "load_data pd fs = Inl (FileError ''data/parte_2.csv.gz'')"
    by (auto simp: load_data_def paths_def read_csv_def and_then_def)
next
  fix d1 d2
  assume a: "fs ''data/parte_1.csv.gz'' = Some d1 \<and> fs ''data/parte_2.csv.gz'' = Some d2"
  then have r: "read_all fs paths = Inr [d1, d2]"
    by (simp add: read_two_files)
  then show l: "load_data pd fs = normalise pd [d1, d2]"
    by (simp add: load_data_def and_then_def)
  show "set (columns (concat_frames [d1, d2])) = set (columns d1) \<union> set (columns d2)"
    by (rule columns_concat_two)
  {
    fix c assume "c \<in> set (columns d1) \<and> c \<notin> set (columns d2)"
    then show "column c (concat_frames [d1, d2]) = column c d1 @ replicate (length (rows d2)) NaN"
      by (simp add: column_concat_two)
  }
  {
    fix c assume "c \<notin> set (columns d1) \<and> c \<in> set (columns d2)"
    then show "column c (concat_frames [d1, d2]) = replicate (length (rows d1)) NaN @ column c d2"
      by (simp add: column_concat_two)
  }
  {
    fix e assume "load_data pd fs = Inl e"
    then have "normalise pd [d1, d2] = Inl e" by (simp add: l)
    from normalise_Inl [OF this]
    show "(\<exists>c. e = KeyError c \<and> c \<notin> set (columns d1) \<union> set (columns d2))
              \<or> (\<exists>m. e = ValueError m)"
      by (auto simp: columns_drop_unnamed columns_concat_two)
  }
qed

theorem load_errors_witness:
  "example_files ''data/parte_1.csv.gz'' = Some example_part_1
   \<and> example_files ''data/parte_2.csv.gz'' = Some example_part_2
   \<and> ''city'' \<in> set (columns example_part_1) \<and> ''city'' \<notin> set (columns example_part_2)
   \<and> column ''city'' (concat_frames [example_part_1, example_part_2]) =
        [Str ''Quito'', Str ''Quito'', NaN]
   \<and> one_file ''data/parte_1.csv.gz'' = Some example_part_1
   \<and> one_file ''data/parte_2.csv.gz'' = None
   \<and> load_data example_pandas one_file = Inl (FileError ''data/parte_2.csv.gz'')"
proof -
  have f: "example_files ''data/parte_1.csv.gz'' = Some example_part_1"
    "example_files ''data/parte_2.csv.gz'' = Some example_part_2"
    by (simp_all add: example_files_def)
  have o: "one_file ''data/parte_1.csv.gz'' = Some example_part_1"
    "one_file ''data/parte_2.csv.gz'' = None"
    by (simp_all add: one_file_def)
  have c: "''city'' \<in> set (columns example_part_1)" "''city'' \<notin> set (columns example_part_2)"
    by (simp_all add: example_part_1_def example_part_2_def csv_def)
  have v: "column ''city'' example_part_1 = [Str ''Quito'', Str ''Quito'']"
    "length (rows example_part_2) = 1"
    by (simp_all add: example_part_1_def example_part_2_def csv_def column_def cells_def)
  from load_errors [of example_files example_pandas] f c
  have "column ''city'' (concat_frames [example_part_1, example_part_2]) =
      column ''city'' example_part_1 @ replicate (length (rows example_part_2)) NaN"
    by blast
  then have 1: "column ''city'' (concat_frames [example_part_1, example_part_2]) =
      [Str ''Quito'', Str ''Quito'', NaN]"
    by (simp add: v)
  from load_errors [of one_file example_pandas] o
  have 2: "load_data example_pandas one_file = Inl (FileError ''data/parte_2.csv.gz'')"
    by simp
  show ?thesis using f o c 1 2 by simp
qed

text \<open>
  The claim as written fails on a schema mismatch: with \<^verbatim>\<open>city\<close> in the first partition
  only, the load returns the dataset, and \<^verbatim>\<open>city\<close> is null on the row of the second.
\<close>

theorem schema_mismatch_counterexample:
  "''city'' \<in> set (columns example_part_1) \<and> ''city'' \<notin> set (columns example_part_2)
   \<and> map_sum id (column ''city'') (load_data example_pandas example_files) =
       Inr [Str ''Quito'', Str ''Quito'', NaN]"
proof -
  from example_loads obtain df where df: "load_data example_pandas example_files = Inr df" ..
  have "column ''city'' df = [Str ''Quito'', Str ''Quito'', NaN]"
    by (simp add: load_data_columns(8) [OF example_read df] example_raw)
  moreover have "''city'' \<in> set (columns example_part_1)"
    and "''city'' \<notin> set (columns example_part_2)"
    by (simp_all add: example_part_1_def example_part_2_def csv_def)
  ultimately show ?thesis by (simp add: df)
qed

end
